theory Spec2Isabelle
  imports Main "HOL-Library.Sublist" "HOL-Library.Char_ord" "HOL-Library.List_Lexorder"
    "HOL-Library.AList"
begin

section \<open>Library functions of the Go runtime used by the program\<close>

text \<open>
  Go strings are byte sequences; they are modelled as \<open>string\<close> (a list of 8-bit
  characters), compared bytewise (the lexicographic order on \<open>char list\<close>).
\<close>

definition digit :: "nat \<Rightarrow> char" where
  "digit d = ''0123456789'' ! d"

text \<open>\<open>strconv.Itoa\<close> and the verb \<open>%d\<close> on a non-negative number.\<close>

fun utoa :: "nat \<Rightarrow> string" where
  "utoa n = (if n < 10 then [digit n] else utoa (n div 10) @ [digit (n mod 10)])"

declare utoa.simps [simp del]

definition Itoa :: "int \<Rightarrow> string" where
  "Itoa i = (if i < 0 then CHR ''-'' # utoa (nat (- i)) else utoa (nat i))"

text \<open>\<open>strings.Join\<close>.\<close>

fun Join :: "string list \<Rightarrow> string \<Rightarrow> string" where
  "Join [] sep = []"
| "Join [x] sep = x"
| "Join (x # y # ys) sep = x @ sep @ Join (y # ys) sep"

text \<open>
  \<open>strings.ReplaceAll\<close>: the non-overlapping occurrences of \<open>old\<close> are replaced from
  left to right. The program only passes patterns that end in a dot; for the empty
  pattern (where Go inserts \<open>new\<close> at every rune boundary) the text is left as it is.
\<close>

function ReplaceAll :: "string \<Rightarrow> string \<Rightarrow> string \<Rightarrow> string" where
  "ReplaceAll [] old new = []"
| "ReplaceAll (c # cs) old new =
     (if old \<noteq> [] \<and> prefix old (c # cs)
      then new @ ReplaceAll (drop (length old) (c # cs)) old new
      else c # ReplaceAll cs old new)"
  by pat_completeness auto
termination
  by (relation "measure (\<lambda>(s, old, new). length s)") (auto simp: neq_Nil_conv)

text \<open>\<open>strings.HasPrefix\<close>.\<close>

definition HasPrefix :: "string \<Rightarrow> string \<Rightarrow> bool" where
  "HasPrefix s p = prefix p s"

text \<open>
  A slice expression \<open>s[lo:hi]\<close> on a string: it panics unless
  \<open>0 \<le> lo \<le> hi \<le> len(s)\<close>; \<open>None\<close> is the panic.
\<close>

definition slice :: "string \<Rightarrow> int \<Rightarrow> int \<Rightarrow> string option" where
  "slice s lo hi =
     (if 0 \<le> lo \<and> lo \<le> hi \<and> hi \<le> int (length s)
      then Some (take (nat hi - nat lo) (drop (nat lo) s))
      else None)"

section \<open>Syntax trees and the type-resolution table\<close>

datatype Ident = Ident (NamePos: int) (Name: string)

datatype ChanDir = SEND | RECV | BOTH

text \<open>
  The nodes of \<open>go/ast\<close> that the program tells apart, each with its children in the
  order of \<open>ast.Walk\<close>; every other node (statements, literals, calls, ...) is an
  \<open>OtherNode\<close> with its position and its children.
\<close>

datatype Node =
    IdentExpr Ident
  | StarExpr Node
  | ArrayType "Node option" Node
  | MapType Node Node
  | SelectorExpr Node Ident
  | InterfaceType "Field list"
  | StructType "Field list"
  | ChanType ChanDir Node
  | Ellipsis "Node option"
  | FuncType "Field list option" "Field list option" "Field list option"
  | OtherNode int "Node list"
and Field = Field (Names: "Ident list") (FieldType: Node)

datatype Object = PkgName string | OtherObject

text \<open>
  \<open>types.Info\<close>: \<open>TypeOf\<close> gives the text (\<open>String()\<close>) of the resolved type of an
  expression when there is one, \<open>Uses\<close> the object an identifier refers to. A
  \<open>PkgName\<close> carries \<open>Imported().Path()\<close>.
\<close>

record Info =
  TypeOf :: "Node \<Rightarrow> string option"
  Uses :: "Ident \<Rightarrow> Object option"

section \<open>pkg/analyzer\<close>

text \<open>
  The test shared by the three walks of the program: the base of a selector is an
  identifier that \<open>Uses\<close> binds to a package name; the result is the import path.
\<close>

definition importedPath :: "Info \<Rightarrow> Node \<Rightarrow> string option" where
  "importedPath info x =
     (case x of
        IdentExpr ident \<Rightarrow>
          (case Uses info ident of
             Some (PkgName fullImportPath) \<Rightarrow> Some fullImportPath
           | _ \<Rightarrow> None)
      | _ \<Rightarrow> None)"

text \<open>The test \<open>ft.Results.List[0].Names == nil\<close> of \<open>GetSignature\<close>.\<close>

definition firstNamesNil :: "Field list option \<Rightarrow> bool" where
  "firstNamesNil results =
     (case results of Some (Field names t # fs) \<Rightarrow> names = [] | _ \<Rightarrow> False)"

text \<open>
  \<open>GetTypeString\<close> and \<open>GetSignature\<close> (\<open>fieldStrings\<close> is its loop over the fields
  of a parameter or result list); \<open>fprint\<close> is the last resort of the source (\<open>printer.Fprint\<close>, or
  the \<open>%T\<close> name when the printer fails), \<open>None\<close> a nil expression.
\<close>

function GetTypeString :: "(Node option \<Rightarrow> string) \<Rightarrow> Node \<Rightarrow> Info \<Rightarrow> string"
and GetTypeString_nil :: "(Node option \<Rightarrow> string) \<Rightarrow> Node option \<Rightarrow> Info \<Rightarrow> string"
and GetSignature ::
  "(Node option \<Rightarrow> string) \<Rightarrow> Field list option \<Rightarrow> Field list option \<Rightarrow> Info \<Rightarrow> string"
and fieldStrings :: "(Node option \<Rightarrow> string) \<Rightarrow> Field list \<Rightarrow> Info \<Rightarrow> string list"
where
  "GetTypeString fprint (IdentExpr t) info =
     (case TypeOf info (IdentExpr t) of Some tv \<Rightarrow> tv | None \<Rightarrow> Name t)"
| "GetTypeString fprint (StarExpr x) info =
     (case TypeOf info (StarExpr x) of Some tv \<Rightarrow> tv
      | None \<Rightarrow> ''*'' @ GetTypeString fprint x info)"
| "GetTypeString fprint (ArrayType len elt) info =
     (case TypeOf info (ArrayType len elt) of Some tv \<Rightarrow> tv
      | None \<Rightarrow> ''[]'' @ GetTypeString fprint elt info)"
| "GetTypeString fprint (MapType k v) info =
     (case TypeOf info (MapType k v) of Some tv \<Rightarrow> tv
      | None \<Rightarrow> ''map['' @ GetTypeString fprint k info @ '']'' @ GetTypeString fprint v info)"
| "GetTypeString fprint (SelectorExpr x sel) info =
     (case TypeOf info (SelectorExpr x sel) of Some tv \<Rightarrow> tv
      | None \<Rightarrow>
         (case importedPath info x of
            Some path \<Rightarrow> path @ ''.'' @ Name sel
          | None \<Rightarrow> GetTypeString fprint x info @ ''.'' @ Name sel))"
| "GetTypeString fprint (InterfaceType methods) info =
     (case TypeOf info (InterfaceType methods) of Some tv \<Rightarrow> tv
      | None \<Rightarrow> ''interface{}'')"
| "GetTypeString fprint (ChanType dir v) info =
     (case TypeOf info (ChanType dir v) of Some tv \<Rightarrow> tv
      | None \<Rightarrow>
         (case dir of SEND \<Rightarrow> ''chan<- '' | RECV \<Rightarrow> ''<-chan '' | BOTH \<Rightarrow> ''chan '')
         @ GetTypeString fprint v info)"
| "GetTypeString fprint (Ellipsis elt) info =
     (case TypeOf info (Ellipsis elt) of Some tv \<Rightarrow> tv
      | None \<Rightarrow> ''...'' @ GetTypeString_nil fprint elt info)"
| "GetTypeString fprint (FuncType tparams params results) info =
     (case TypeOf info (FuncType tparams params results) of Some tv \<Rightarrow> tv
      | None \<Rightarrow> ''func'' @ GetSignature fprint params results info)"
| "GetTypeString fprint (StructType flds) info =
     (case TypeOf info (StructType flds) of Some tv \<Rightarrow> tv
      | None \<Rightarrow> fprint (Some (StructType flds)))"
| "GetTypeString fprint (OtherNode p cs) info =
     (case TypeOf info (OtherNode p cs) of Some tv \<Rightarrow> tv
      | None \<Rightarrow> fprint (Some (OtherNode p cs)))"
| "GetTypeString_nil fprint None info = fprint None"
| "GetTypeString_nil fprint (Some e) info = GetTypeString fprint e info"
| "GetSignature fprint params results info =
     (let ps = (case params of None \<Rightarrow> [] | Some l \<Rightarrow> fieldStrings fprint l info);
          paramStr = ''('' @ Join ps '', '' @ '')'';
          rs = (case results of None \<Rightarrow> [] | Some l \<Rightarrow> fieldStrings fprint l info);
          resultStr =
            (case rs of
               [] \<Rightarrow> ''''
             | r # rest \<Rightarrow>
                 if rest = [] \<and> firstNamesNil results
                 then '' '' @ r
                 else '' ('' @ Join rs '', '' @ '')'')
      in paramStr @ resultStr)"
| "fieldStrings fprint [] info = []"
| "fieldStrings fprint (Field names t # fs) info =
     (let typeStr = GetTypeString fprint t info
      in (if length names = 0 then [typeStr]
          else map (\<lambda>name. Name name @ '' '' @ typeStr) names)
         @ fieldStrings fprint fs info)"
  by pat_completeness auto
termination
  by (relation "measure (\<lambda>x. case x of
        Inl (Inl (fprint, e, info)) \<Rightarrow> size e
      | Inl (Inr (fprint, eo, info)) \<Rightarrow> size_option size eo
      | Inr (Inl (fprint, ps, rs, info)) \<Rightarrow>
          size_option (size_list size) ps + size_option (size_list size) rs
      | Inr (Inr (fprint, fs, info)) \<Rightarrow> size_list size fs)")
     auto

text \<open>
  \<open>ast.Inspect\<close> visits every node of a subtree in depth-first order; the callbacks
  of the program act on \<open>SelectorExpr\<close> nodes only. \<open>selectors\<close> lists the selector
  expressions of a subtree, as pairs of base and member, in visiting order.
\<close>

fun selectors :: "Node \<Rightarrow> (Node \<times> Ident) list"
and selectors_nil :: "Node option \<Rightarrow> (Node \<times> Ident) list"
and selectors_list :: "Node list \<Rightarrow> (Node \<times> Ident) list"
and selectors_fields :: "Field list \<Rightarrow> (Node \<times> Ident) list"
and selectors_fieldList :: "Field list option \<Rightarrow> (Node \<times> Ident) list"
where
  "selectors (IdentExpr t) = []"
| "selectors (StarExpr x) = selectors x"
| "selectors (ArrayType len elt) = selectors_nil len @ selectors elt"
| "selectors (MapType k v) = selectors k @ selectors v"
| "selectors (SelectorExpr x sel) = (x, sel) # selectors x"
| "selectors (InterfaceType methods) = selectors_fields methods"
| "selectors (StructType flds) = selectors_fields flds"
| "selectors (ChanType dir v) = selectors v"
| "selectors (Ellipsis elt) = selectors_nil elt"
| "selectors (FuncType tparams params results) =
     selectors_fieldList tparams @ selectors_fieldList params @ selectors_fieldList results"
| "selectors (OtherNode p cs) = selectors_list cs"
| "selectors_nil None = []"
| "selectors_nil (Some e) = selectors e"
| "selectors_list [] = []"
| "selectors_list (e # es) = selectors e @ selectors_list es"
| "selectors_fields [] = []"
| "selectors_fields (Field names t # fs) = selectors t @ selectors_fields fs"
| "selectors_fieldList None = []"
| "selectors_fieldList (Some l) = selectors_fields l"

text \<open>Declarations and specifications, each with its \<open>Pos()\<close> and \<open>End()\<close>.\<close>

datatype Token = token_IMPORT | token_CONST | token_TYPE | token_VAR

datatype Spec =
    ImportSpec (SpecPos: int) (SpecEnd: int)
  | TypeSpec (SpecPos: int) (SpecEnd: int) Ident "Field list option" Node
  | ValueSpec (SpecPos: int) (SpecEnd: int) "Ident list" "Node option" "Node list"

datatype Decl =
    FuncDecl (DeclPos: int) (DeclEnd: int) "Field list option" Ident Node "Node option"
  | GenDecl (DeclPos: int) (DeclEnd: int) Token "Spec list"
  | BadDecl (DeclPos: int) (DeclEnd: int)

text \<open>The \<open>ast.Node\<close> values that the program hands to the two walks.\<close>

datatype AstNode = DeclNode Decl | SpecNode Spec

fun selectors_spec :: "Spec \<Rightarrow> (Node \<times> Ident) list" where
  "selectors_spec (ImportSpec p e) = []"
| "selectors_spec (TypeSpec p e name tparams typ) = selectors_fieldList tparams @ selectors typ"
| "selectors_spec (ValueSpec p e names typ vals) = selectors_nil typ @ selectors_list vals"

fun Inspect :: "AstNode \<Rightarrow> (Node \<times> Ident) list" where
  "Inspect (DeclNode (FuncDecl p e recv name typ body)) =
     selectors_fieldList recv @ selectors typ @ selectors_nil body"
| "Inspect (DeclNode (GenDecl p e tok specs)) = concat (map selectors_spec specs)"
| "Inspect (DeclNode (BadDecl p e)) = []"
| "Inspect (SpecNode s) = selectors_spec s"

text \<open>
  \<open>ExtractAccessedSymbols\<close>: \<open>accessedKeys\<close> are the keys put into the map
  \<open>accessed\<close>, in the order of their first insertion. The source ranges over the
  map in an unspecified order and sorts the keys with \<open>sort.Strings\<close>; the sorted
  list is the same for every order of the keys.
\<close>

definition accessedKeys :: "AstNode \<Rightarrow> Info \<Rightarrow> string list" where
  "accessedKeys node info =
     remdups (concat (map (\<lambda>(x, sel).
        case importedPath info x of
          Some fullImportPath \<Rightarrow> [fullImportPath @ ''.'' @ Name sel]
        | None \<Rightarrow> []) (Inspect node)))"

definition ExtractAccessedSymbols :: "AstNode option \<Rightarrow> Info option \<Rightarrow> string list" where
  "ExtractAccessedSymbols node info =
     (case (node, info) of
        (Some n, Some i) \<Rightarrow> sort (accessedKeys n i)
      | _ \<Rightarrow> [])"

section \<open>pkg/transform\<close>

text \<open>
  The map \<open>replacements\<close> of \<open>ApplyQualifierReplacements\<close>, as an association list
  with one entry for each key (a later assignment to a key overwrites its value).
\<close>

definition discoverReplacements :: "AstNode \<Rightarrow> Info \<Rightarrow> (string \<times> string) list" where
  "discoverReplacements node info =
     fold (\<lambda>(x, sel) replacements.
        case x of
          IdentExpr ident \<Rightarrow>
            (case importedPath info x of
               Some fullImportPath \<Rightarrow>
                 if Name ident \<noteq> fullImportPath
                 then AList.update (Name ident) fullImportPath replacements
                 else replacements
             | None \<Rightarrow> replacements)
        | _ \<Rightarrow> replacements) (Inspect node) []"

text \<open>
  What the source leaves to the runtime: the order in which \<open>range\<close> visits the
  entries of \<open>replacements\<close> (it numbers the placeholders), and the two results of
  \<open>sort.Slice\<close>, which is not stable, so that keys of equal length come in any order.
\<close>

record Choices =
  rangeReplacements :: "(string \<times> string) list"
  sortedOldQualifiers :: "string list"
  sortedPlaceholders :: "string list"

definition placeholder :: "nat \<Rightarrow> string" where
  "placeholder i = ''__GO_QUALIFIER_TEMP_'' @ Itoa (int i) @ ''__''"

definition tempMap :: "(string \<times> string) list \<Rightarrow> (string \<times> string) list" where
  "tempMap rs = zip (map fst rs) (map placeholder [0..<length rs])"

definition finalMap :: "(string \<times> string) list \<Rightarrow> (string \<times> string) list" where
  "finalMap rs = zip (map placeholder [0..<length rs]) (map snd rs)"

text \<open>Reading a \<open>map[string]string\<close>: a missing key gives the empty string.\<close>

definition lookup :: "(string \<times> string) list \<Rightarrow> string \<Rightarrow> string" where
  "lookup m k = (case map_of m k of Some v \<Rightarrow> v | None \<Rightarrow> '''')"



text \<open>The two passes over the text, after the placeholders are numbered.\<close>

definition firstPass :: "Choices \<Rightarrow> string \<Rightarrow> string" where
  "firstPass ch chunkCode =
     fold (\<lambda>oldQualifier code.
        ReplaceAll code (oldQualifier @ ''.'')
          (lookup (tempMap (rangeReplacements ch)) oldQualifier @ ''.''))
       (sortedOldQualifiers ch) chunkCode"

definition secondPass :: "Choices \<Rightarrow> string \<Rightarrow> string" where
  "secondPass ch chunkCode =
     fold (\<lambda>p code.
        ReplaceAll code (p @ ''.'') (lookup (finalMap (rangeReplacements ch)) p @ ''.''))
       (sortedPlaceholders ch) chunkCode"

definition substitute :: "Choices \<Rightarrow> string \<Rightarrow> string" where
  "substitute ch chunkCode = secondPass ch (firstPass ch chunkCode)"

definition ApplyQualifierReplacements ::
  "((string \<times> string) list \<Rightarrow> Choices) \<Rightarrow> string \<Rightarrow> AstNode option \<Rightarrow> Info option \<Rightarrow> string"
where
  "ApplyQualifierReplacements pick chunkCode node info =
     (case (node, info) of
        (Some n, Some i) \<Rightarrow>
          (let replacements = discoverReplacements n i
           in if length replacements = 0 then chunkCode
              else substitute (pick replacements) chunkCode)
      | _ \<Rightarrow> chunkCode)"

text \<open>
  One admissible choice, for running the model: \<open>range\<close> in the order of first
  insertion, and a stable sort.
\<close>

definition byLength :: "string list \<Rightarrow> string list" where
  "byLength ks = rev (sort_key length (rev ks))"

definition inOrder :: "(string \<times> string) list \<Rightarrow> Choices" where
  "inOrder replacements =
     \<lparr> rangeReplacements = replacements,
       sortedOldQualifiers = byLength (map fst (tempMap replacements)),
       sortedPlaceholders = byLength (map fst (finalMap replacements)) \<rparr>"

section \<open>The chunk model and the world of the extractor\<close>

datatype MVal = Str string | Bool bool | Strs "string list"

type_synonym Metadata = "string \<rightharpoonup> MVal"

text \<open>
  A Go map is a reference: \<open>Metadata\<close> of a chunk is the address of its mapping in the
  store \<open>heap\<close>, so that two chunks can share one mapping.
\<close>

record ChromaDocument =
  ID :: string
  Document :: string
  Metadata :: nat

datatype LogEvent =
    SkippingPackage string
  | ErrorProcessingPackage string
  | ErrorReadingFile string
  | InvalidDeclOffsets string int int int int
  | InvalidSpecOffsets string int int int int
  | VendorMissing string
  | VendorStatError string
  | VendorExists string
  | LoadWarning string string
  | LoadedPackage string

record World =
  heap :: "nat \<Rightarrow> Metadata"
  nextAddr :: nat
  reads :: "string list"
  logs :: "LogEvent list"

datatype StatResult = StatOk | StatNotExist | StatError

text \<open>
  What the program takes from outside the repository: \<open>ReadFile n path\<close> is what
  \<open>ioutil.ReadFile\<close> returns for the read number \<open>n\<close> of the run (\<open>None\<close>: an error),
  \<open>Abs\<close> is \<open>filepath.Abs\<close> (\<open>None\<close>: an error), \<open>PathJoin\<close> is \<open>filepath.Join\<close>,
  \<open>Fprint\<close> the printer of \<open>GetTypeString\<close>, \<open>Stat\<close> is \<open>os.Stat\<close>, \<open>pick\<close> the iteration and tie orders of
  the rewriter.
\<close>

record Extern =
  ReadFile :: "nat \<Rightarrow> string \<Rightarrow> string option"
  Abs :: "string \<Rightarrow> string option"
  PathJoin :: "string \<Rightarrow> string \<Rightarrow> string"
  Separator :: char
  Fprint :: "Node option \<Rightarrow> string"
  Stat :: "string \<Rightarrow> StatResult"
  pick :: "(string \<times> string) list \<Rightarrow> Choices"

record Position =
  Offset :: int
  Line :: int

text \<open>
  The position index \<open>token.FileSet\<close>: \<open>PositionOf\<close> is \<open>Fset.Position\<close>;
  \<open>FileNameOf p\<close> is \<open>Fset.File(p).Name()\<close>, and \<open>None\<close> when \<open>Fset.File(p)\<close> is nil
  (no file of the set holds the position \<open>p\<close>; \<open>token.NoPos\<close> is 0 and lies in no
  file), where the call of \<open>Name\<close> panics.
\<close>

record FileSet =
  PositionOf :: "int \<Rightarrow> Position"
  FileNameOf :: "int \<Rightarrow> string option"

text \<open>
  A file of \<open>pkg.Syntax\<close> with its \<open>Pos()\<close> (the position of the package keyword;
  \<open>NoPos\<close> for a file without a package clause, such as an empty file), and a
  package of the front-end. A nil field is \<open>None\<close>.
\<close>

record File =
  FilePos :: int
  Decls :: "Decl list"

record Package =
  pID :: string
  pName :: string
  TypesInfo :: "Info option"
  Syntax :: "File list option"
  Fset :: "FileSet option"

definition newMap :: "Metadata \<Rightarrow> World \<Rightarrow> nat \<times> World" where
  "newMap m w =
     (nextAddr w, w\<lparr>heap := (heap w)(nextAddr w := m), nextAddr := Suc (nextAddr w)\<rparr>)"

definition setKey :: "nat \<Rightarrow> string \<Rightarrow> MVal \<Rightarrow> World \<Rightarrow> World" where
  "setKey a k v w = w\<lparr>heap := (heap w)(a := (heap w a)(k \<mapsto> v))\<rparr>"

definition logf :: "LogEvent \<Rightarrow> World \<Rightarrow> World" where
  "logf e w = w\<lparr>logs := logs w @ [e]\<rparr>"

definition readFile :: "Extern \<Rightarrow> string \<Rightarrow> World \<Rightarrow> string option \<times> World" where
  "readFile env path w = (ReadFile env (length (reads w)) path, w\<lparr>reads := reads w @ [path]\<rparr>)"

text \<open>\<open>fmt.Sprintf("%s:%d-%d-%s", ...)\<close>.\<close>

definition chunkID :: "string \<Rightarrow> int \<Rightarrow> int \<Rightarrow> string \<Rightarrow> string" where
  "chunkID filePath startLine endLine name =
     filePath @ '':'' @ Itoa startLine @ ''-'' @ Itoa endLine @ ''-'' @ name"

section \<open>pkg/parser\<close>

text \<open>
  Every function takes the world and returns its result with the new world;
  \<open>None\<close> is a panic of the Go runtime (a slice out of range, a nil
  \<open>TypesInfo\<close>, \<open>Fset\<close> or \<open>token.File\<close> dereferenced).
\<close>

definition processFunctionDeclaration ::
  "Extern \<Rightarrow> Decl \<Rightarrow> Package \<Rightarrow> string \<Rightarrow> nat \<Rightarrow> string \<Rightarrow> Position \<Rightarrow> Position \<Rightarrow> World
   \<Rightarrow> (ChromaDocument option \<times> World) option"
where
  "processFunctionDeclaration env funcDecl pkg declChunkCode metadata filePath startPos endPos w =
     (case funcDecl of
        FuncDecl p e recv name typ body \<Rightarrow>
          (let w1 = setKey metadata ''entity_type'' (Str ''function'') w;
               w2 = setKey metadata ''entity_name'' (Str (Name name)) w1;
               w3 =
                 (case recv of
                    Some (Field names rtype # fs) \<Rightarrow>
                      (case TypesInfo pkg of
                         None \<Rightarrow> None
                       | Some info \<Rightarrow>
                           (let w21 = setKey metadata ''entity_type'' (Str ''method'') w2;
                                receiverType = GetTypeString (Fprint env) rtype info;
                                w22 = setKey metadata ''receiver_type'' (Str receiverType) w21
                            in Some (setKey metadata ''entity_name''
                                       (Str (receiverType @ ''.'' @ Name name)) w22)))
                  | _ \<Rightarrow> Some w2)
           in case w3 of
                None \<Rightarrow> None
              | Some w4 \<Rightarrow>
                  (let finalChunkCode =
                         ApplyQualifierReplacements (pick env) declChunkCode
                           (Some (DeclNode funcDecl)) (TypesInfo pkg)
                   in Some (Some \<lparr> ID = chunkID filePath (Line startPos) (Line endPos) (Name name),
                                    Document = finalChunkCode,
                                    Metadata = metadata \<rparr>, w4)))
      | _ \<Rightarrow> None)"

definition invalidOffsets :: "int \<Rightarrow> int \<Rightarrow> string \<Rightarrow> bool" where
  "invalidOffsets startOffset endOffset content =
     (startOffset < 0 \<or> endOffset > int (length content) \<or> startOffset > endOffset)"

text \<open>
  The second half of \<open>processTypeSpecification\<close> and \<open>processValueSpecification\<close>,
  which is the same text in both: read the file again, check the offsets, slice,
  rewrite, build the chunk.
\<close>

definition readAndSlice ::
  "Extern \<Rightarrow> Spec \<Rightarrow> Package \<Rightarrow> nat \<Rightarrow> string \<Rightarrow> Position \<Rightarrow> Position \<Rightarrow> string \<Rightarrow> World
   \<Rightarrow> (ChromaDocument option \<times> World) option"
where
  "readAndSlice env spec pkg specMetadata filePath specStartPos specEndPos entityName w =
     (case readFile env filePath w of
        (None, w1) \<Rightarrow> Some (None, logf (ErrorReadingFile filePath) w1)
      | (Some originalFileContentString, w1) \<Rightarrow>
          (let specStartOffset = Offset specStartPos;
               specEndOffset = Offset specEndPos
           in if invalidOffsets specStartOffset specEndOffset originalFileContentString
              then Some (None,
                     logf (InvalidSpecOffsets filePath (Line specStartPos) specStartOffset
                             specEndOffset (int (length originalFileContentString))) w1)
              else (case slice originalFileContentString specStartOffset specEndOffset of
                      None \<Rightarrow> None
                    | Some specChunkCode \<Rightarrow>
                        (let finalChunkCode =
                               ApplyQualifierReplacements (pick env) specChunkCode
                                 (Some (SpecNode spec)) (TypesInfo pkg)
                         in Some (Some \<lparr> ID = chunkID filePath (Line specStartPos)
                                                 (Line specEndPos) entityName,
                                          Document = finalChunkCode,
                                          Metadata = specMetadata \<rparr>, w1)))))"

definition typeCategory :: "Node \<Rightarrow> string" where
  "typeCategory t =
     (case t of
        StructType flds \<Rightarrow> ''struct''
      | InterfaceType methods \<Rightarrow> ''interface''
      | _ \<Rightarrow> ''alias_or_basic'')"

definition processTypeSpecification ::
  "Extern \<Rightarrow> Spec \<Rightarrow> Package \<Rightarrow> nat \<Rightarrow> string \<Rightarrow> Position \<Rightarrow> Position \<Rightarrow> World
   \<Rightarrow> (ChromaDocument option \<times> World) option"
where
  "processTypeSpecification env typeSpec pkg specMetadata filePath specStartPos specEndPos w =
     (case typeSpec of
        TypeSpec p e name tparams typ \<Rightarrow>
          (let entityName = Name name;
               w1 = setKey specMetadata ''entity_name'' (Str entityName) w;
               w2 = setKey specMetadata ''type_category'' (Str (typeCategory typ)) w1
           in readAndSlice env typeSpec pkg specMetadata filePath specStartPos specEndPos
                entityName w2)
      | _ \<Rightarrow> None)"

definition processValueSpecification ::
  "Extern \<Rightarrow> Spec \<Rightarrow> Package \<Rightarrow> nat \<Rightarrow> string \<Rightarrow> Position \<Rightarrow> Position \<Rightarrow> World
   \<Rightarrow> (ChromaDocument option \<times> World) option"
where
  "processValueSpecification env valueSpec pkg specMetadata filePath specStartPos specEndPos w =
     (case valueSpec of
        ValueSpec p e names typ vals \<Rightarrow>
          (let entityName = Join (map Name names) '', '';
               w1 = setKey specMetadata ''entity_name'' (Str entityName) w
           in case TypesInfo pkg of
                None \<Rightarrow>
                  (if typ = None \<and> vals = []
                   then readAndSlice env valueSpec pkg specMetadata filePath specStartPos
                          specEndPos entityName w1
                   else None)
              | Some info \<Rightarrow>
                  (let w2 =
                         (case typ of
                            Some t \<Rightarrow>
                              setKey specMetadata ''type''
                                (Str (GetTypeString (Fprint env) t info)) w1
                          | None \<Rightarrow>
                              (case vals of
                                 v # vs \<Rightarrow>
                                   (case TypeOf info v of
                                      Some tv \<Rightarrow> setKey specMetadata ''type'' (Str tv) w1
                                    | None \<Rightarrow> w1)
                               | [] \<Rightarrow> w1))
                   in readAndSlice env valueSpec pkg specMetadata filePath specStartPos
                        specEndPos entityName w2))
      | _ \<Rightarrow> None)"

text \<open>\<open>processSpecification\<close> makes a new map and copies the base metadata into it.\<close>

definition processSpecification ::
  "Extern \<Rightarrow> Spec \<Rightarrow> Package \<Rightarrow> nat \<Rightarrow> string \<Rightarrow> Position \<Rightarrow> Position \<Rightarrow> World
   \<Rightarrow> (ChromaDocument option \<times> World) option"
where
  "processSpecification env spec pkg baseMetadata filePath specStartPos specEndPos w =
     (case newMap (Map.empty ++ heap w baseMetadata) w of
        (specMetadata, w1) \<Rightarrow>
          (case spec of
             TypeSpec p e name tparams typ \<Rightarrow>
               processTypeSpecification env spec pkg specMetadata filePath specStartPos
                 specEndPos w1
           | ValueSpec p e names typ vals \<Rightarrow>
               processValueSpecification env spec pkg specMetadata filePath specStartPos
                 specEndPos w1
           | _ \<Rightarrow> Some (None, w1)))"

text \<open>The loop of \<open>processGeneralDeclaration\<close> over \<open>genDecl.Specs\<close>.\<close>

fun processSpecs ::
  "Extern \<Rightarrow> Spec list \<Rightarrow> Package \<Rightarrow> nat \<Rightarrow> string \<Rightarrow> ChromaDocument list \<Rightarrow> World
   \<Rightarrow> (ChromaDocument list \<times> World) option"
where
  "processSpecs env [] pkg metadata filePath chunks w = Some (chunks, w)"
| "processSpecs env (spec # specs) pkg metadata filePath chunks w =
     (case Fset pkg of
        None \<Rightarrow> None
      | Some fset \<Rightarrow>
          (case processSpecification env spec pkg metadata filePath
                  (PositionOf fset (SpecPos spec)) (PositionOf fset (SpecEnd spec)) w of
             None \<Rightarrow> None
           | Some (None, w1) \<Rightarrow> processSpecs env specs pkg metadata filePath chunks w1
           | Some (Some chunk, w1) \<Rightarrow>
               processSpecs env specs pkg metadata filePath (chunks @ [chunk]) w1))"

definition processGeneralDeclaration ::
  "Extern \<Rightarrow> Decl \<Rightarrow> Package \<Rightarrow> string \<Rightarrow> nat \<Rightarrow> string \<Rightarrow> Position \<Rightarrow> Position \<Rightarrow> World
   \<Rightarrow> (ChromaDocument list \<times> World) option"
where
  "processGeneralDeclaration env genDecl pkg declChunkCode metadata filePath startPos endPos w =
     (case genDecl of
        GenDecl p e tok specs \<Rightarrow>
          (if tok = token_IMPORT then Some ([], w)
           else processSpecs env specs pkg metadata filePath [] w)
      | _ \<Rightarrow> None)"

definition processDeclaration ::
  "Extern \<Rightarrow> Decl \<Rightarrow> Package \<Rightarrow> string \<Rightarrow> nat \<Rightarrow> string \<Rightarrow> Position \<Rightarrow> Position \<Rightarrow> World
   \<Rightarrow> (ChromaDocument list \<times> World) option"
where
  "processDeclaration env decl pkg declChunkCode metadata filePath startPos endPos w =
     (case decl of
        FuncDecl p e recv name typ body \<Rightarrow>
          (case processFunctionDeclaration env decl pkg declChunkCode metadata filePath
                  startPos endPos w of
             None \<Rightarrow> None
           | Some (Some chunk, w1) \<Rightarrow> Some ([chunk], w1)
           | Some (None, w1) \<Rightarrow> Some ([], w1))
      | GenDecl p e tok specs \<Rightarrow>
          processGeneralDeclaration env decl pkg declChunkCode metadata filePath
            startPos endPos w
      | BadDecl p e \<Rightarrow> Some ([], w))"

text \<open>The loop of \<open>processFileDeclarations\<close> over \<open>file.Decls\<close>.\<close>

fun processFileDeclarations ::
  "Extern \<Rightarrow> Decl list \<Rightarrow> Package \<Rightarrow> string \<Rightarrow> string \<Rightarrow> bool \<Rightarrow> string
   \<Rightarrow> ChromaDocument list \<Rightarrow> World \<Rightarrow> (ChromaDocument list \<times> World) option"
where
  "processFileDeclarations env [] pkg filePath packageName isVendored content chunks w =
     Some (chunks, w)"
| "processFileDeclarations env (decl # decls) pkg filePath packageName isVendored content chunks w =
     (case newMap [''file_path'' \<mapsto> Str filePath, ''package_name'' \<mapsto> Str packageName,
                   ''is_vendored'' \<mapsto> Bool isVendored] w of
        (metadata, w1) \<Rightarrow>
          (case Fset pkg of
             None \<Rightarrow> None
           | Some fset \<Rightarrow>
               (let startPos = PositionOf fset (DeclPos decl);
                    endPos = PositionOf fset (DeclEnd decl);
                    startOffset = Offset startPos;
                    endOffset = Offset endPos
                in if invalidOffsets startOffset endOffset content
                   then processFileDeclarations env decls pkg filePath packageName isVendored
                          content chunks
                          (logf (InvalidDeclOffsets filePath (Line startPos) startOffset endOffset
                                   (int (length content))) w1)
                   else (case slice content startOffset endOffset of
                           None \<Rightarrow> None
                         | Some declChunkCode \<Rightarrow>
                             (let accessedSymbols =
                                    ExtractAccessedSymbols (Some (DeclNode decl)) (TypesInfo pkg);
                                  w2 = setKey metadata ''accessed_symbols'' (Strs accessedSymbols) w1
                              in case processDeclaration env decl pkg declChunkCode metadata
                                        filePath startPos endPos w2 of
                                   None \<Rightarrow> None
                                 | Some (declChunks, w3) \<Rightarrow>
                                     processFileDeclarations env decls pkg filePath packageName
                                       isVendored content (chunks @ declChunks) w3)))))"

text \<open>
  The loop of \<open>processPackage\<close> over \<open>pkg.Syntax\<close>. The file name is
  \<open>pkg.Fset.File(file.Pos()).Name()\<close>: a nil \<open>Fset\<close>, or a position that no file
  of the set holds, is a nil dereference.
\<close>

fun processFiles ::
  "Extern \<Rightarrow> File list \<Rightarrow> Package \<Rightarrow> string \<Rightarrow> ChromaDocument list \<Rightarrow> World
   \<Rightarrow> (ChromaDocument list \<times> World) option"
where
  "processFiles env [] pkg absVendorPath chunks w = Some (chunks, w)"
| "processFiles env (file # files) pkg absVendorPath chunks w =
     (case Fset pkg of
        None \<Rightarrow> None
      | Some fset \<Rightarrow>
          (case FileNameOf fset (FilePos file) of
             None \<Rightarrow> None
           | Some filePath \<Rightarrow>
               (case readFile env filePath w of
                  (None, w1) \<Rightarrow>
                    processFiles env files pkg absVendorPath chunks
                      (logf (ErrorReadingFile filePath) w1)
                | (Some originalFileContentString, w1) \<Rightarrow>
                    (let packageName = pName pkg;
                         isVendored = HasPrefix filePath (absVendorPath @ [Separator env])
                     in case processFileDeclarations env (Decls file) pkg filePath packageName
                               isVendored originalFileContentString [] w1 of
                          None \<Rightarrow> None
                        | Some (fileChunks, w2) \<Rightarrow>
                            processFiles env files pkg absVendorPath (chunks @ fileChunks)
                              w2))))"

text \<open>\<open>processPackage\<close> returns its chunks and an error, which is always nil.\<close>

definition processPackage ::
  "Extern \<Rightarrow> Package \<Rightarrow> string \<Rightarrow> World
   \<Rightarrow> ((ChromaDocument list \<times> string option) \<times> World) option"
where
  "processPackage env pkg absVendorPath w =
     (case Syntax pkg of
        None \<Rightarrow> Some (([], None), w)
      | Some files \<Rightarrow>
          (case processFiles env files pkg absVendorPath [] w of
             None \<Rightarrow> None
           | Some (chunks, w1) \<Rightarrow> Some ((chunks, None), w1)))"

text \<open>The loop of \<open>ParsePackages\<close> over \<open>allPkgs\<close>.\<close>

fun processPackages ::
  "Extern \<Rightarrow> Package list \<Rightarrow> string \<Rightarrow> ChromaDocument list \<Rightarrow> World
   \<Rightarrow> (ChromaDocument list \<times> World) option"
where
  "processPackages env [] absVendorPath allChunks w = Some (allChunks, w)"
| "processPackages env (pkg # pkgs) absVendorPath allChunks w =
     (if TypesInfo pkg = None \<or> Syntax pkg = None \<or> Fset pkg = None
      then processPackages env pkgs absVendorPath allChunks (logf (SkippingPackage (pID pkg)) w)
      else (case processPackage env pkg absVendorPath w of
              None \<Rightarrow> None
            | Some ((chunks, Some err), w1) \<Rightarrow>
                processPackages env pkgs absVendorPath allChunks
                  (logf (ErrorProcessingPackage (pID pkg)) w1)
            | Some ((chunks, None), w1) \<Rightarrow>
                processPackages env pkgs absVendorPath (allChunks @ chunks) w1))"

text \<open>
  \<open>ParsePackages\<close> returns the chunks (\<open>Inr\<close>) or an error (\<open>Inl\<close>, with nil chunks).
\<close>

definition ParsePackages ::
  "Extern \<Rightarrow> Package list \<Rightarrow> string \<Rightarrow> World
   \<Rightarrow> ((string + ChromaDocument list) \<times> World) option"
where
  "ParsePackages env allPkgs projectPath w =
     (let vendorDirPath = PathJoin env projectPath ''vendor''
      in case Abs env vendorDirPath of
           None \<Rightarrow>
             Some (Inl ''failed to resolve absolute path for vendor directory'', w)
         | Some absVendorPath \<Rightarrow>
             (case processPackages env allPkgs absVendorPath [] w of
                None \<Rightarrow> None
              | Some (allChunks, w1) \<Rightarrow> Some (Inr allChunks, w1)))"

section \<open>pkg/loader\<close>

text \<open>The two loops of \<open>LoadGoProject\<close> that keep the first package of every ID.\<close>

fun addUnique :: "Package list \<Rightarrow> Package list \<times> string set \<Rightarrow> Package list \<times> string set" where
  "addUnique [] (allPkgs, loadedPkgIDs) = (allPkgs, loadedPkgIDs)"
| "addUnique (pkg # pkgs) (allPkgs, loadedPkgIDs) =
     (if pID pkg \<notin> loadedPkgIDs
      then addUnique pkgs (allPkgs @ [pkg], insert (pID pkg) loadedPkgIDs)
      else addUnique pkgs (allPkgs, loadedPkgIDs))"

text \<open>
  \<open>LoadGoProject\<close>; \<open>load dir\<close> is \<open>packages.Load\<close> with the configuration of
  \<open>CreatePackageConfig\<close> for \<open>dir\<close>: the packages and an error or nil.
  \<open>logLoadedPackages\<close> only writes to the log (one event for each package here);
  the progress messages of the loader are left out of the log.
  The result is the list of packages and the returned error.
\<close>

definition LoadGoProject ::
  "Extern \<Rightarrow> (string \<Rightarrow> Package list \<times> string option) \<Rightarrow> string \<Rightarrow> World
   \<Rightarrow> (Package list \<times> string option) \<times> World"
where
  "LoadGoProject env load projectPath w =
     (let vendorDirPath = PathJoin env projectPath ''vendor'';
          w1 = (case Stat env vendorDirPath of
                  StatNotExist \<Rightarrow> logf (VendorMissing vendorDirPath) w
                | StatError \<Rightarrow> logf (VendorStatError vendorDirPath) w
                | StatOk \<Rightarrow> logf (VendorExists vendorDirPath) w);
          (mainPkgs, err1) = load projectPath;
          w2 = (case err1 of Some e \<Rightarrow> logf (LoadWarning ''main module'' e) w1 | None \<Rightarrow> w1);
          (allPkgs1, ids1) = addUnique mainPkgs ([], {});
          (vendorPkgs, err2) = load vendorDirPath;
          w3 = (case err2 of Some e \<Rightarrow> logf (LoadWarning ''vendor directory'' e) w2 | None \<Rightarrow> w2);
          (allPkgs, ids) = addUnique vendorPkgs (allPkgs1, ids1);
          w4 = fold (\<lambda>pkg. logf (LoadedPackage (pID pkg))) allPkgs w3
      in ((allPkgs, None), w4))"

section \<open>cmd/go-ast-parser\<close>

text \<open>
  The first two steps of \<open>main\<close>: load, then parse; an error returned by either step
  ends the run (\<open>log.Fatalf\<close>), \<open>Inl\<close> here. The third step, the writer, is outside
  this development.
\<close>

definition loadAndParse ::
  "Extern \<Rightarrow> (string \<Rightarrow> Package list \<times> string option) \<Rightarrow> string \<Rightarrow> World
   \<Rightarrow> ((string + ChromaDocument list) \<times> World) option"
where
  "loadAndParse env load projectPath w =
     (case LoadGoProject env load projectPath w of
        ((allPkgs, Some err), w1) \<Rightarrow> Some (Inl err, w1)
      | ((allPkgs, None), w1) \<Rightarrow> ParsePackages env allPkgs projectPath w1)"

section \<open>An example project\<close>

text \<open>
  One file \<open>/p/demo.go\<close> of a package \<open>demo\<close>: an import of \<open>fmt\<close> under the alias
  \<open>fm\<close>, a type group with two bindings, and a method that calls \<open>fm.Println\<close>.
  Positions are offsets plus one (the file has base 1 and 104 bytes; the position
  index holds a second, empty file \<open>/p/empty.go\<close> at base 106); the table resolves no
  types, so that \<open>GetTypeString\<close> takes its structural fallback.
\<close>

definition exContent :: string where
  "exContent =
     ''package demo'' @ [CHR 0x0A, CHR 0x0A] @
     ''import fm '' @ [CHR 0x22] @ ''fmt'' @ [CHR 0x22, CHR 0x0A, CHR 0x0A] @
     ''type ('' @ [CHR 0x0A, CHR 0x09] @ ''Foo struct{}'' @ [CHR 0x0A, CHR 0x09] @
     ''Bar int'' @ [CHR 0x0A] @ '')'' @ [CHR 0x0A, CHR 0x0A] @
     ''func (f *Foo) Hello() { fm.Println(1) }'' @ [CHR 0x0A]"

definition exFset :: FileSet where
  "exFset =
     \<lparr> PositionOf = (\<lambda>p.
         \<lparr> Offset = p - 1,
           Line = 1 + int (length (filter (\<lambda>s. s \<le> p - 1)
                                     [13, 14, 30, 31, 38, 52, 61, 63, 64, 104])) \<rparr>),
       FileNameOf = (\<lambda>p. if 1 \<le> p \<and> p \<le> 105 then Some ''/p/demo.go''
                          else if p = 106 then Some ''/p/empty.go'' else None) \<rparr>"

definition exInfo :: Info where
  "exInfo =
     \<lparr> TypeOf = (\<lambda>e. None),
       Uses = (\<lambda>i. if i = Ident 89 ''fm'' then Some (PkgName ''fmt'') else None) \<rparr>"

definition exImport :: Decl where
  "exImport = GenDecl 15 30 token_IMPORT [ImportSpec 22 30]"

definition exFoo :: Spec where
  "exFoo = TypeSpec 40 52 (Ident 40 ''Foo'') None (StructType [])"

definition exBar :: Spec where
  "exBar = TypeSpec 54 61 (Ident 54 ''Bar'') None (IdentExpr (Ident 58 ''int''))"

definition exTypes :: Decl where
  "exTypes = GenDecl 32 63 token_TYPE [exFoo, exBar]"

definition exHello :: Decl where
  "exHello =
     FuncDecl 65 104
       (Some [Field [Ident 71 ''f''] (StarExpr (IdentExpr (Ident 74 ''Foo'')))])
       (Ident 79 ''Hello'')
       (FuncType None (Some []) None)
       (Some (OtherNode 87 [OtherNode 89 [OtherNode 89
          [SelectorExpr (IdentExpr (Ident 89 ''fm'')) (Ident 92 ''Println''),
           OtherNode 100 []]]]))"

definition exPkg :: Package where
  "exPkg =
     \<lparr> pID = ''demo'', pName = ''demo'', TypesInfo = Some exInfo,
       Syntax = Some [\<lparr> FilePos = 1, Decls = [exImport, exTypes, exHello] \<rparr>],
       Fset = Some exFset \<rparr>"

definition exEnv :: Extern where
  "exEnv =
     \<lparr> ReadFile = (\<lambda>n path. if path = ''/p/demo.go'' then Some exContent else None),
       Abs = (\<lambda>path. Some path),
       PathJoin = (\<lambda>dir name. dir @ ''/'' @ name),
       Separator = CHR ''/'',
       Fprint = (\<lambda>e. ''struct{}''),
       Stat = (\<lambda>path. StatNotExist),
       pick = inOrder \<rparr>"

definition emptyWorld :: World where
  "emptyWorld = \<lparr> heap = (\<lambda>a. Map.empty), nextAddr = 0, reads = [], logs = [] \<rparr>"

text \<open>The chunks of a run, and what their metadata mappings hold under a key.\<close>

definition chunksOf ::
  "((string + ChromaDocument list) \<times> World) option \<Rightarrow> ChromaDocument list" where
  "chunksOf r = (case r of Some (Inr cs, w) \<Rightarrow> cs | _ \<Rightarrow> [])"

definition metadataOf ::
  "((string + ChromaDocument list) \<times> World) option \<Rightarrow> string \<Rightarrow> MVal option list" where
  "metadataOf r k =
     (case r of Some (Inr cs, w) \<Rightarrow> map (\<lambda>c. heap w (Metadata c) k) cs | _ \<Rightarrow> [])"

text \<open>A second table, which binds identifiers by name: \<open>fm\<close> and \<open>fmt\<close> to \<open>fmt\<close>, \<open>os\<close> to \<open>os\<close>.\<close>

definition exNames :: Info where
  "exNames =
     \<lparr> TypeOf = (\<lambda>e. None),
       Uses = (\<lambda>i. if Name i = ''fm'' \<or> Name i = ''fmt'' then Some (PkgName ''fmt'')
                   else if Name i = ''os'' then Some (PkgName ''os'') else None) \<rparr>"

text \<open>\<open>func Plain() { fmt.Println(1) }\<close>: the only qualifier is its own import path.\<close>

definition exPlain :: Decl where
  "exPlain =
     FuncDecl 1 33 None (Ident 6 ''Plain'') (FuncType None (Some []) None)
       (Some (OtherNode 14 [OtherNode 16 [OtherNode 16
          [SelectorExpr (IdentExpr (Ident 16 ''fmt'')) (Ident 20 ''Println''),
           OtherNode 28 []]]]))"

text \<open>\<open>func Many() { os.Exit(1); fm.Println(1); fm.Println(2); x.y() }\<close>.\<close>

definition exMany :: Decl where
  "exMany =
     FuncDecl 1 60 None (Ident 6 ''Many'') (FuncType None (Some []) None)
       (Some (OtherNode 13
          [OtherNode 15 [OtherNode 15
             [SelectorExpr (IdentExpr (Ident 15 ''os'')) (Ident 18 ''Exit''), OtherNode 23 []]],
           OtherNode 27 [OtherNode 27
             [SelectorExpr (IdentExpr (Ident 27 ''fm'')) (Ident 30 ''Println''), OtherNode 38 []]],
           OtherNode 42 [OtherNode 42
             [SelectorExpr (IdentExpr (Ident 42 ''fm'')) (Ident 45 ''Println''), OtherNode 53 []]],
           OtherNode 57 [OtherNode 57
             [SelectorExpr (IdentExpr (Ident 57 ''x'')) (Ident 59 ''y'')]]]))"

section \<open>Notions used in the statements\<close>




text \<open>
  What the specification functions do for a spec: the entity name they store, and
  whether they read the file (a type or value spec does, once).
\<close>

fun entityNameOf :: "Spec \<Rightarrow> string" where
  "entityNameOf (TypeSpec p e name tparams t) = Name name"
| "entityNameOf (ValueSpec p e names t vals) = Join (map Name names) '', ''"
| "entityNameOf (ImportSpec p e) = ''''"

fun isBinding :: "Spec \<Rightarrow> bool" where
  "isBinding (TypeSpec p e name tparams t) = True"
| "isBinding (ValueSpec p e names t vals) = True"
| "isBinding (ImportSpec p e) = False"

text \<open>The text of a spec chunk that is sliced from \<open>content\<close>.\<close>

definition specDocument ::
  "Extern \<Rightarrow> Spec \<Rightarrow> Package \<Rightarrow> Position \<Rightarrow> Position \<Rightarrow> string \<Rightarrow> string" where
  "specDocument env spec pkg sp ep content =
     ApplyQualifierReplacements (pick env)
       (take (nat (Offset ep) - nat (Offset sp)) (drop (nat (Offset sp)) content))
       (Some (SpecNode spec)) (TypesInfo pkg)"

text \<open>
  The number of times the file is read while a declaration is processed, and
  while the declarations of a file are (those with a valid span).
\<close>

fun declReads :: "Decl \<Rightarrow> nat" where
  "declReads (GenDecl p e tok specs) =
     (if tok = token_IMPORT then 0 else length (filter isBinding specs))"
| "declReads (FuncDecl p e recv name t body) = 0"
| "declReads (BadDecl p e) = 0"

fun fileReads :: "FileSet \<Rightarrow> string \<Rightarrow> Decl list \<Rightarrow> nat" where
  "fileReads fset content [] = 0"
| "fileReads fset content (d # ds) =
     (if invalidOffsets (Offset (PositionOf fset (DeclPos d))) (Offset (PositionOf fset (DeclEnd d))) content
      then 0 else declReads d) + fileReads fset content ds"

text \<open>
  The chunk of a binding when the read number \<open>n\<close> of the run is the one that its
  specification function makes: none when the file cannot be read then or the
  span does not fit the bytes read; \<open>md\<close> is the address of its mapping.
\<close>

definition readChunk ::
  "Extern \<Rightarrow> Package \<Rightarrow> string \<Rightarrow> Spec \<Rightarrow> Position \<Rightarrow> Position \<Rightarrow> string \<Rightarrow> nat \<Rightarrow> nat
   \<Rightarrow> ChromaDocument option" where
  "readChunk env pkg fp spec sp ep name md n =
     (case ReadFile env n fp of
        None \<Rightarrow> None
      | Some content \<Rightarrow>
          if invalidOffsets (Offset sp) (Offset ep) content then None
          else Some \<lparr> ID = chunkID fp (Line sp) (Line ep) name,
                       Document = specDocument env spec pkg sp ep content,
                       Metadata = md \<rparr>)"

text \<open>
  The chunks of the specs of a group when the next read of the run has number \<open>n\<close>
  and the next mapping the address \<open>a\<close>: every spec takes one address, and a type
  or value spec one read.
\<close>

fun specsChunks ::
  "Extern \<Rightarrow> Package \<Rightarrow> FileSet \<Rightarrow> string \<Rightarrow> nat \<Rightarrow> nat \<Rightarrow> Spec list \<Rightarrow> ChromaDocument list"
where
  "specsChunks env pkg fset fp n a [] = []"
| "specsChunks env pkg fset fp n a (spec # specs) =
     (if isBinding spec
      then (case readChunk env pkg fp spec (PositionOf fset (SpecPos spec))
                   (PositionOf fset (SpecEnd spec)) (entityNameOf spec) a n of
              None \<Rightarrow> []
            | Some c \<Rightarrow> [c])
           @ specsChunks env pkg fset fp (Suc n) (Suc a) specs
      else specsChunks env pkg fset fp n (Suc a) specs)"

text \<open>
  The chunks of a declaration with a valid span, whose text in the content that
  \<open>processPackage\<close> read is \<open>code\<close> and whose mapping has the address \<open>md\<close>; and the
  number of mappings that its specs take.
\<close>

fun declChunks ::
  "Extern \<Rightarrow> Package \<Rightarrow> FileSet \<Rightarrow> string \<Rightarrow> string \<Rightarrow> nat \<Rightarrow> nat \<Rightarrow> nat \<Rightarrow> Decl
   \<Rightarrow> ChromaDocument list"
where
  "declChunks env pkg fset fp code md n a (FuncDecl p e recv name t body) =
     [\<lparr> ID = chunkID fp (Line (PositionOf fset p)) (Line (PositionOf fset e)) (Name name),
        Document = ApplyQualifierReplacements (pick env) code
                     (Some (DeclNode (FuncDecl p e recv name t body))) (TypesInfo pkg),
        Metadata = md \<rparr>]"
| "declChunks env pkg fset fp code md n a (GenDecl p e tok specs) =
     (if tok = token_IMPORT then [] else specsChunks env pkg fset fp n a specs)"
| "declChunks env pkg fset fp code md n a (BadDecl p e) = []"

fun declMaps :: "Decl \<Rightarrow> nat" where
  "declMaps (GenDecl p e tok specs) = (if tok = token_IMPORT then 0 else length specs)"
| "declMaps (FuncDecl p e recv name t body) = 0"
| "declMaps (BadDecl p e) = 0"

text \<open>
  The chunks of the declarations of a file whose content, as \<open>processPackage\<close> read
  it, is \<open>content\<close>, when the next read of the run has number \<open>n\<close> and the next
  mapping the address \<open>a\<close>. A declaration takes one mapping; one with an invalid
  span in \<open>content\<close> gives no chunk and makes no read.
\<close>

fun declsChunks ::
  "Extern \<Rightarrow> Package \<Rightarrow> FileSet \<Rightarrow> string \<Rightarrow> string \<Rightarrow> nat \<Rightarrow> nat \<Rightarrow> Decl list
   \<Rightarrow> ChromaDocument list"
where
  "declsChunks env pkg fset fp content n a [] = []"
| "declsChunks env pkg fset fp content n a (d # ds) =
     (let sp = PositionOf fset (DeclPos d); ep = PositionOf fset (DeclEnd d)
      in if invalidOffsets (Offset sp) (Offset ep) content
         then declsChunks env pkg fset fp content n (Suc a) ds
         else declChunks env pkg fset fp
                (take (nat (Offset ep) - nat (Offset sp)) (drop (nat (Offset sp)) content))
                a n (Suc a) d
              @ declsChunks env pkg fset fp content (n + declReads d) (Suc a + declMaps d) ds)"

text \<open>
  The chunk \<open>c\<close> of a spec is sliced from the bytes that one of the reads number
  \<open>lo\<close> to \<open>hi - 1\<close> of the run returned for the file.
\<close>

definition ownRead ::
  "Extern \<Rightarrow> Package \<Rightarrow> string \<Rightarrow> Spec \<Rightarrow> Position \<Rightarrow> Position \<Rightarrow> nat \<Rightarrow> nat \<Rightarrow> ChromaDocument
   \<Rightarrow> bool" where
  "ownRead env pkg fp spec sp ep lo hi c =
     (\<exists>n content. lo \<le> n \<and> n < hi \<and> ReadFile env n fp = Some content \<and>
        \<not> invalidOffsets (Offset sp) (Offset ep) content \<and>
        Document c = specDocument env spec pkg sp ep content)"

text \<open>
  What one call of \<open>processSpecification\<close> does to the world \<open>w\<close>: it allocates one
  mapping, which agrees with the base mapping outside the per-binding keys, changes
  no other mapping, reads the file once for a type or value spec, and a chunk that
  it returns refers to the new mapping.
\<close>

definition specStep ::
  "Extern \<Rightarrow> Package \<Rightarrow> string \<Rightarrow> Spec \<Rightarrow> nat \<Rightarrow> Position \<Rightarrow> Position \<Rightarrow> World
   \<Rightarrow> ChromaDocument option \<Rightarrow> World \<Rightarrow> bool" where
  "specStep env pkg fp spec base sp ep w r w' =
     (nextAddr w' = Suc (nextAddr w) \<and>
      (\<forall>a. a \<noteq> nextAddr w \<longrightarrow> heap w' a = heap w a) \<and>
      (\<forall>k. k \<notin> {''entity_name'', ''type'', ''type_category''} \<longrightarrow>
           heap w' (nextAddr w) k = heap w base k) \<and>
      reads w' = reads w @ (if isBinding spec then [fp] else []) \<and>
      prefix (logs w) (logs w') \<and>
      (\<forall>c. r = Some c \<longrightarrow>
         isBinding spec \<and>
         Metadata c = nextAddr w \<and>
         ID c = chunkID fp (Line sp) (Line ep) (entityNameOf spec) \<and>
         heap w' (nextAddr w) ''entity_name'' = Some (Str (entityNameOf spec)) \<and>
         ownRead env pkg fp spec sp ep (length (reads w)) (Suc (length (reads w))) c))"

text \<open>
  A chunk \<open>c\<close> made for one of \<open>specs\<close> between the worlds \<open>w\<close> and \<open>w'\<close>, with the
  base mapping at \<open>base\<close>.
\<close>

definition bindingChunk ::
  "Extern \<Rightarrow> Package \<Rightarrow> FileSet \<Rightarrow> string \<Rightarrow> Spec list \<Rightarrow> nat \<Rightarrow> World \<Rightarrow> World
   \<Rightarrow> ChromaDocument \<Rightarrow> bool" where
  "bindingChunk env pkg fset fp specs base w w' c =
     (nextAddr w \<le> Metadata c \<and> Metadata c < nextAddr w' \<and>
      (\<forall>k. k \<notin> {''entity_name'', ''type'', ''type_category''} \<longrightarrow>
           heap w' (Metadata c) k = heap w base k) \<and>
      (\<exists>spec \<in> set specs.
         ID c = chunkID fp (Line (PositionOf fset (SpecPos spec))) (Line (PositionOf fset (SpecEnd spec)))
                  (entityNameOf spec) \<and>
         heap w' (Metadata c) ''entity_name'' = Some (Str (entityNameOf spec)) \<and>
         ownRead env pkg fp spec (PositionOf fset (SpecPos spec)) (PositionOf fset (SpecEnd spec))
           (length (reads w)) (length (reads w')) c))"

definition specsResult ::
  "Extern \<Rightarrow> Package \<Rightarrow> FileSet \<Rightarrow> string \<Rightarrow> Spec list \<Rightarrow> nat \<Rightarrow> World
   \<Rightarrow> ChromaDocument list \<Rightarrow> World \<Rightarrow> bool" where
  "specsResult env pkg fset fp specs base w cs w' =
     (nextAddr w' = nextAddr w + length specs \<and>
      (\<forall>a < nextAddr w. heap w' a = heap w a) \<and>
      reads w' = reads w @ replicate (length (filter isBinding specs)) fp \<and>
      prefix (logs w) (logs w') \<and>
      distinct (map Metadata cs) \<and>
      (\<forall>c \<in> set cs. bindingChunk env pkg fset fp specs base w w' c))"

text \<open>
  The callback of \<open>ApplyQualifierReplacements\<close> assigns to \<open>replacements\<close> at a
  selector with base \<open>x\<close>.
\<close>

definition discovers :: "Info \<Rightarrow> Node \<Rightarrow> bool" where
  "discovers info x =
     (\<exists>ident path. x = IdentExpr ident \<and> importedPath info x = Some path \<and> Name ident \<noteq> path)"

text \<open>The reads and the log of a run.\<close>

definition readsOf :: "('a \<times> World) option \<Rightarrow> string list" where
  "readsOf r = (case r of Some (x, w) \<Rightarrow> reads w | None \<Rightarrow> [])"

definition logsOf :: "('a \<times> World) option \<Rightarrow> LogEvent list" where
  "logsOf r = (case r of Some (x, w) \<Rightarrow> logs w | None \<Rightarrow> [])"

definition documentsOf ::
  "((string + ChromaDocument list) \<times> World) option \<Rightarrow> string list" where
  "documentsOf r = (case r of Some (Inr cs, w) \<Rightarrow> map Document cs | _ \<Rightarrow> [])"

text \<open>
  Variations of the example: the file changes after its first read; a function
  whose span ends beyond the end of the file; a second file of the package that
  is empty, for which the front-end gives a syntax tree without package clause,
  at \<open>token.NoPos\<close>; a second package with that file alone.
\<close>

definition exChanging :: Extern where
  "exChanging =
     exEnv \<lparr> ReadFile := (\<lambda>n path. if path = ''/p/demo.go''
                                    then Some (if n = 0 then exContent else map (\<lambda>c. CHR ''x'') exContent)
                                    else None) \<rparr>"

definition exBeyond :: Decl where
  "exBeyond = FuncDecl 90 200 None (Ident 95 ''Lost'') (FuncType None (Some []) None) None"

definition exEmptyFile :: File where
  "exEmptyFile = \<lparr> FilePos = 0, Decls = [] \<rparr>"

definition exTwoFiles :: Package where
  "exTwoFiles =
     exPkg \<lparr> Syntax := Some [\<lparr> FilePos = 1, Decls = [exImport, exTypes, exHello] \<rparr>,
                              exEmptyFile] \<rparr>"

definition exEmptyPkg :: Package where
  "exEmptyPkg = exPkg \<lparr> pID := ''empty'', Syntax := Some [exEmptyFile] \<rparr>"

section \<open>Evaluation\<close>

lemmas ex_defs = exContent_def exFset_def exInfo_def exImport_def exFoo_def exBar_def exTypes_def
  exHello_def exPkg_def exEnv_def emptyWorld_def exNames_def exPlain_def exMany_def
  exChanging_def exBeyond_def exEmptyFile_def exTwoFiles_def exEmptyPkg_def

lemmas lib_defs = digit_def utoa.simps Itoa_def HasPrefix_def slice_def

lemmas analyzer_defs = importedPath_def firstNamesNil_def accessedKeys_def
  ExtractAccessedSymbols_def

lemmas transform_defs = discoverReplacements_def placeholder_def tempMap_def finalMap_def
  lookup_def firstPass_def secondPass_def substitute_def ApplyQualifierReplacements_def
  byLength_def inOrder_def

lemmas parser_defs = newMap_def setKey_def logf_def readFile_def chunkID_def
  processFunctionDeclaration_def invalidOffsets_def readAndSlice_def typeCategory_def
  processTypeSpecification_def processValueSpecification_def processSpecification_def
  processGeneralDeclaration_def processDeclaration_def processPackage_def ParsePackages_def

section \<open>The extractor, step by step\<close>

lemma slice_valid:
  "\<not> invalidOffsets a b s \<Longrightarrow> slice s a b = Some (take (nat b - nat a) (drop (nat a) s))"
  by (auto simp: invalidOffsets_def slice_def)

lemma ownReadI:
  "ReadFile env n fp = Some content \<Longrightarrow> \<not> invalidOffsets (Offset sp) (Offset ep) content \<Longrightarrow>
   Document c = specDocument env spec pkg sp ep content \<Longrightarrow> lo \<le> n \<Longrightarrow> n < hi \<Longrightarrow>
   ownRead env pkg fp spec sp ep lo hi c"
  unfolding ownRead_def by blast

lemma readAndSlice_result:
  "\<exists>r w'. readAndSlice env spec pkg md fp sp ep name w = Some (r, w') \<and>
     heap w' = heap w \<and> nextAddr w' = nextAddr w \<and> reads w' = reads w @ [fp] \<and>
     prefix (logs w) (logs w') \<and>
     (\<forall>c. r = Some c \<longrightarrow>
        Metadata c = md \<and> ID c = chunkID fp (Line sp) (Line ep) name \<and>
        ownRead env pkg fp spec sp ep (length (reads w)) (Suc (length (reads w))) c)"
proof (cases "ReadFile env (length (reads w)) fp")
  case None
  then show ?thesis
    by (simp add: readAndSlice_def readFile_def logf_def)
next
  case (Some content)
  show ?thesis
  proof (cases "invalidOffsets (Offset sp) (Offset ep) content")
    case True
    with Some show ?thesis
      by (simp add: readAndSlice_def readFile_def logf_def Let_def)
  next
    case False
    define c where "c = \<lparr> ID = chunkID fp (Line sp) (Line ep) name,
        Document = specDocument env spec pkg sp ep content, Metadata = md \<rparr>"
    have eq: "readAndSlice env spec pkg md fp sp ep name w =
        Some (Some c, w\<lparr>reads := reads w @ [fp]\<rparr>)"
      using Some False
      by (simp add: readAndSlice_def readFile_def Let_def slice_valid specDocument_def c_def)
    have "ownRead env pkg fp spec sp ep (length (reads w)) (Suc (length (reads w))) c"
      by (rule ownReadI [OF Some False]) (simp_all add: c_def)
    then show ?thesis
      unfolding eq by (simp add: c_def)
  qed
qed

lemma specStep_via_readAndSlice:
  assumes eq: "processSpecification env spec pkg base fp sp ep w =
      readAndSlice env spec pkg (nextAddr w) fp sp ep (entityNameOf spec) w3"
    and b: "isBinding spec"
    and w3: "nextAddr w3 = Suc (nextAddr w)" "reads w3 = reads w" "logs w3 = logs w"
      "\<forall>a. a \<noteq> nextAddr w \<longrightarrow> heap w3 a = heap w a"
      "\<forall>k. k \<notin> {''entity_name'', ''type'', ''type_category''} \<longrightarrow>
          heap w3 (nextAddr w) k = heap w base k"
      "heap w3 (nextAddr w) ''entity_name'' = Some (Str (entityNameOf spec))"
  shows "\<exists>r w'. processSpecification env spec pkg base fp sp ep w = Some (r, w') \<and>
     specStep env pkg fp spec base sp ep w r w'"
proof -
  from readAndSlice_result [of env spec pkg "nextAddr w" fp sp ep "entityNameOf spec" w3]
  obtain r w' where R: "readAndSlice env spec pkg (nextAddr w) fp sp ep (entityNameOf spec) w3
        = Some (r, w') \<and>
     heap w' = heap w3 \<and> nextAddr w' = nextAddr w3 \<and> reads w' = reads w3 @ [fp] \<and>
     prefix (logs w3) (logs w') \<and>
     (\<forall>c. r = Some c \<longrightarrow>
        Metadata c = nextAddr w \<and> ID c = chunkID fp (Line sp) (Line ep) (entityNameOf spec) \<and>
        ownRead env pkg fp spec sp ep (length (reads w3)) (Suc (length (reads w3))) c)"
    by (elim exE)
  have "specStep env pkg fp spec base sp ep w r w'"
    unfolding specStep_def using R w3 b by simp
  with R eq show ?thesis by simp
qed

lemma processSpecification_result:
  assumes "TypesInfo pkg = Some info"
  shows "\<exists>r w'. processSpecification env spec pkg base fp sp ep w = Some (r, w') \<and>
     specStep env pkg fp spec base sp ep w r w'"
proof (cases spec)
  case (ImportSpec p e)
  then show ?thesis
    by (simp add: processSpecification_def newMap_def specStep_def)
next
  case (TypeSpec p e name tparams t)
  define w3 where "w3 = setKey (nextAddr w) ''type_category'' (Str (typeCategory t))
      (setKey (nextAddr w) ''entity_name'' (Str (Name name))
         (snd (newMap (Map.empty ++ heap w base) w)))"
  have eq: "processSpecification env spec pkg base fp sp ep w =
      readAndSlice env spec pkg (nextAddr w) fp sp ep (entityNameOf spec) w3"
    by (simp add: TypeSpec processSpecification_def processTypeSpecification_def newMap_def
        Let_def w3_def)
  show ?thesis
    by (rule specStep_via_readAndSlice [OF eq])
       (simp_all add: TypeSpec w3_def setKey_def newMap_def)
next
  case (ValueSpec p e names t vals)
  define w1 where "w1 = setKey (nextAddr w) ''entity_name'' (Str (Join (map Name names) '', ''))
         (snd (newMap (Map.empty ++ heap w base) w))"
  define w2 where "w2 =
     (case t of
        Some ty \<Rightarrow> setKey (nextAddr w) ''type'' (Str (GetTypeString (Fprint env) ty info)) w1
      | None \<Rightarrow>
          (case vals of
             v # vs \<Rightarrow>
               (case TypeOf info v of
                  Some tv \<Rightarrow> setKey (nextAddr w) ''type'' (Str tv) w1
                | None \<Rightarrow> w1)
           | [] \<Rightarrow> w1))"
  have eq: "processSpecification env spec pkg base fp sp ep w =
      readAndSlice env spec pkg (nextAddr w) fp sp ep (entityNameOf spec) w2"
    using assms unfolding w2_def w1_def
    by (simp add: ValueSpec processSpecification_def processValueSpecification_def newMap_def
        Let_def split: option.splits list.splits)
  have w1: "nextAddr w1 = Suc (nextAddr w)" "reads w1 = reads w" "logs w1 = logs w"
    "\<And>a. a \<noteq> nextAddr w \<Longrightarrow> heap w1 a = heap w a"
    "\<And>k. k \<notin> {''entity_name'', ''type'', ''type_category''} \<Longrightarrow>
          heap w1 (nextAddr w) k = heap w base k"
    "heap w1 (nextAddr w) ''entity_name'' = Some (Str (Join (map Name names) '', ''))"
    by (simp_all add: w1_def setKey_def newMap_def)
  have w2: "nextAddr w2 = Suc (nextAddr w)" "reads w2 = reads w" "logs w2 = logs w"
    "\<And>a. a \<noteq> nextAddr w \<Longrightarrow> heap w2 a = heap w a"
    "\<And>k. k \<notin> {''entity_name'', ''type'', ''type_category''} \<Longrightarrow>
          heap w2 (nextAddr w) k = heap w base k"
    "heap w2 (nextAddr w) ''entity_name'' = Some (Str (Join (map Name names) '', ''))"
    using w1 by (auto simp: w2_def setKey_def split: option.splits list.splits)
  show ?thesis
    by (rule specStep_via_readAndSlice [OF eq]) (simp_all add: ValueSpec w2)
qed

lemma ownRead_mono:
  "ownRead env pkg fp spec sp ep lo hi c \<Longrightarrow> lo' \<le> lo \<Longrightarrow> hi \<le> hi' \<Longrightarrow>
   ownRead env pkg fp spec sp ep lo' hi' c"
  unfolding ownRead_def by (meson le_trans less_le_trans)

lemma bindingChunk_new:
  assumes S: "specStep env pkg fp spec base (PositionOf fset (SpecPos spec)) (PositionOf fset (SpecEnd spec)) w (Some c) w1"
    and T: "specsResult env pkg fset fp specs base w1 cs w'"
  shows "bindingChunk env pkg fset fp (spec # specs) base w w' c"
proof -
  let ?sp = "PositionOf fset (SpecPos spec)" and ?ep = "PositionOf fset (SpecEnd spec)"
  from S have n1: "nextAddr w1 = Suc (nextAddr w)"
    and b1: "\<forall>k. k \<notin> {''entity_name'', ''type'', ''type_category''} \<longrightarrow>
           heap w1 (nextAddr w) k = heap w base k"
    and m: "Metadata c = nextAddr w"
    and i: "ID c = chunkID fp (Line ?sp) (Line ?ep) (entityNameOf spec)"
    and e: "heap w1 (nextAddr w) ''entity_name'' = Some (Str (entityNameOf spec))"
    and o: "ownRead env pkg fp spec ?sp ?ep (length (reads w)) (Suc (length (reads w))) c"
    and r1: "reads w1 = reads w @ (if isBinding spec then [fp] else [])"
    and ib: "isBinding spec"
    by (simp_all add: specStep_def)
  from T have n2: "nextAddr w' = nextAddr w1 + length specs"
    and h2: "\<forall>a < nextAddr w1. heap w' a = heap w1 a"
    and r2: "reads w' = reads w1 @ replicate (length (filter isBinding specs)) fp"
    by (simp_all add: specsResult_def)
  from h2 n1 have hw: "heap w' (nextAddr w) = heap w1 (nextAddr w)" by simp
  from r1 r2 ib have "Suc (length (reads w)) \<le> length (reads w')" by simp
  with o have o': "ownRead env pkg fp spec ?sp ?ep (length (reads w)) (length (reads w')) c"
    by (rule ownRead_mono [OF _ le_refl])
  have "\<exists>s \<in> set (spec # specs).
         ID c = chunkID fp (Line (PositionOf fset (SpecPos s))) (Line (PositionOf fset (SpecEnd s))) (entityNameOf s) \<and>
         heap w' (Metadata c) ''entity_name'' = Some (Str (entityNameOf s)) \<and>
         ownRead env pkg fp s (PositionOf fset (SpecPos s)) (PositionOf fset (SpecEnd s))
           (length (reads w)) (length (reads w')) c"
    using i e o' m hw by (intro bexI [of _ spec]) simp_all
  moreover have "nextAddr w \<le> Metadata c" "Metadata c < nextAddr w'"
    using m n1 n2 by simp_all
  moreover have "\<forall>k. k \<notin> {''entity_name'', ''type'', ''type_category''} \<longrightarrow>
           heap w' (Metadata c) k = heap w base k"
    using m hw b1 by simp
  ultimately show ?thesis
    unfolding bindingChunk_def by (intro conjI)
qed

lemma bindingChunk_old:
  assumes S: "specStep env pkg fp spec base sp ep w r w1"
    and base: "base < nextAddr w"
    and B: "bindingChunk env pkg fset fp specs base w1 w' c"
  shows "bindingChunk env pkg fset fp (spec # specs) base w w' c"
proof -
  from S have n1: "nextAddr w1 = Suc (nextAddr w)"
    and h1: "\<forall>a. a \<noteq> nextAddr w \<longrightarrow> heap w1 a = heap w a"
    and r1: "reads w1 = reads w @ (if isBinding spec then [fp] else [])"
    by (simp_all add: specStep_def)
  from h1 base have hb: "heap w1 base = heap w base" by simp
  from r1 have le: "length (reads w) \<le> length (reads w1)" by simp
  from B obtain s where s: "s \<in> set specs"
    and i: "ID c = chunkID fp (Line (PositionOf fset (SpecPos s))) (Line (PositionOf fset (SpecEnd s))) (entityNameOf s)"
    and e: "heap w' (Metadata c) ''entity_name'' = Some (Str (entityNameOf s))"
    and o: "ownRead env pkg fp s (PositionOf fset (SpecPos s)) (PositionOf fset (SpecEnd s))
           (length (reads w1)) (length (reads w')) c"
    unfolding bindingChunk_def by (elim conjE bexE)
  from o le have o': "ownRead env pkg fp s (PositionOf fset (SpecPos s)) (PositionOf fset (SpecEnd s))
           (length (reads w)) (length (reads w')) c"
    by (rule ownRead_mono) simp
  have "\<exists>s \<in> set (spec # specs).
         ID c = chunkID fp (Line (PositionOf fset (SpecPos s))) (Line (PositionOf fset (SpecEnd s))) (entityNameOf s) \<and>
         heap w' (Metadata c) ''entity_name'' = Some (Str (entityNameOf s)) \<and>
         ownRead env pkg fp s (PositionOf fset (SpecPos s)) (PositionOf fset (SpecEnd s))
           (length (reads w)) (length (reads w')) c"
    using s i e o' by (intro bexI [of _ s]) simp_all
  moreover from B n1 have "nextAddr w \<le> Metadata c" "Metadata c < nextAddr w'"
    by (simp_all add: bindingChunk_def)
  moreover from B hb have "\<forall>k. k \<notin> {''entity_name'', ''type'', ''type_category''} \<longrightarrow>
           heap w' (Metadata c) k = heap w base k"
    by (simp add: bindingChunk_def)
  ultimately show ?thesis
    unfolding bindingChunk_def by (intro conjI)
qed

lemma processSpecs_result:
  assumes "Fset pkg = Some fset" and "TypesInfo pkg = Some info"
  shows "base < nextAddr w \<Longrightarrow>
     \<exists>cs w'. processSpecs env specs pkg base fp chunks w = Some (chunks @ cs, w') \<and>
       specsResult env pkg fset fp specs base w cs w'"
proof (induction specs arbitrary: chunks w)
  case Nil
  show ?case
    by (intro exI [of _ "[]"] exI [of _ w]) (simp add: specsResult_def)
next
  case (Cons spec specs)
  let ?sp = "PositionOf fset (SpecPos spec)" and ?ep = "PositionOf fset (SpecEnd spec)"
  from processSpecification_result [OF assms(2), of env spec base fp ?sp ?ep w]
  obtain r w1 where A: "processSpecification env spec pkg base fp ?sp ?ep w = Some (r, w1) \<and>
     specStep env pkg fp spec base ?sp ?ep w r w1"
    by (elim exE)
  then have A1: "processSpecification env spec pkg base fp ?sp ?ep w = Some (r, w1)"
    and S: "specStep env pkg fp spec base ?sp ?ep w r w1"
    by simp_all
  from S have n1: "nextAddr w1 = Suc (nextAddr w)"
    and h1: "\<forall>a. a \<noteq> nextAddr w \<longrightarrow> heap w1 a = heap w a"
    and r1: "reads w1 = reads w @ (if isBinding spec then [fp] else [])"
    and l1: "prefix (logs w) (logs w1)"
    by (simp_all add: specStep_def)
  define rc where "rc = (case r of None \<Rightarrow> [] | Some c \<Rightarrow> [c])"
  have step: "processSpecs env (spec # specs) pkg base fp chunks w =
      processSpecs env specs pkg base fp (chunks @ rc) w1"
    using assms(1) A1 by (cases r) (simp_all add: rc_def)
  from Cons.prems n1 have base1: "base < nextAddr w1" by simp
  from Cons.IH [OF base1, of "chunks @ rc"]
  obtain cs w' where B: "processSpecs env specs pkg base fp (chunks @ rc) w1
        = Some ((chunks @ rc) @ cs, w') \<and>
       specsResult env pkg fset fp specs base w1 cs w'"
    by (elim exE)
  then have B1: "processSpecs env specs pkg base fp (chunks @ rc) w1 = Some ((chunks @ rc) @ cs, w')"
    and T: "specsResult env pkg fset fp specs base w1 cs w'"
    by simp_all
  from T have n2: "nextAddr w' = nextAddr w1 + length specs"
    and h2: "\<forall>a < nextAddr w1. heap w' a = heap w1 a"
    and r2: "reads w' = reads w1 @ replicate (length (filter isBinding specs)) fp"
    and l2: "prefix (logs w1) (logs w')"
    and d2: "distinct (map Metadata cs)"
    and c2: "\<forall>c \<in> set cs. bindingChunk env pkg fset fp specs base w1 w' c"
    by (simp_all add: specsResult_def)
  have res: "processSpecs env (spec # specs) pkg base fp chunks w = Some (chunks @ (rc @ cs), w')"
    using step B1 by simp
  have nx: "nextAddr w' = nextAddr w + length (spec # specs)"
    using n1 n2 by simp
  have fr: "\<forall>a < nextAddr w. heap w' a = heap w a"
    using h1 h2 n1 by simp
  have rd: "reads w' = reads w @ replicate (length (filter isBinding (spec # specs))) fp"
    using r1 r2 by (simp add: replicate_append_same)
  have lg: "prefix (logs w) (logs w')"
    using l1 l2 by (rule prefix_order.trans)
  have old: "\<forall>c \<in> set cs. bindingChunk env pkg fset fp (spec # specs) base w w' c"
    using c2 bindingChunk_old [OF S Cons.prems] by blast
  have lo: "\<forall>c \<in> set cs. nextAddr w1 \<le> Metadata c"
    using c2 by (simp add: bindingChunk_def)
  have ds: "distinct (map Metadata (rc @ cs))"
  proof (cases r)
    case None
    with d2 show ?thesis by (simp add: rc_def)
  next
    case (Some c)
    with S have "Metadata c = nextAddr w" by (simp add: specStep_def)
    with lo n1 have "Metadata c \<notin> Metadata ` set cs" by force
    with d2 Some show ?thesis by (simp add: rc_def)
  qed
  have el: "\<forall>c \<in> set (rc @ cs). bindingChunk env pkg fset fp (spec # specs) base w w' c"
  proof (cases r)
    case None
    with old show ?thesis by (simp add: rc_def)
  next
    case (Some c)
    with S T have "bindingChunk env pkg fset fp (spec # specs) base w w' c"
      by (intro bindingChunk_new [where ?w1.0 = w1 and cs = cs]) simp_all
    with old Some show ?thesis by (simp add: rc_def)
  qed
  have "specsResult env pkg fset fp (spec # specs) base w (rc @ cs) w'"
    unfolding specsResult_def using nx fr rd lg ds el by (intro conjI)
  with res show ?case
    by (intro exI [of _ "rc @ cs"] exI [of _ w'] conjI)
qed

lemma processFunctionDeclaration_result:
  assumes "TypesInfo pkg = Some info"
  shows "\<exists>c w'. processFunctionDeclaration env (FuncDecl p e recv name t body) pkg code md fp sp ep w
            = Some (Some c, w') \<and>
          Metadata c = md \<and> nextAddr w' = nextAddr w \<and> reads w' = reads w \<and> logs w' = logs w \<and>
          (\<forall>a. a \<noteq> md \<longrightarrow> heap w' a = heap w a)"
proof (cases recv)
  case None
  then show ?thesis
    by (simp add: processFunctionDeclaration_def setKey_def Let_def)
next
  case (Some l)
  show ?thesis
  proof (cases l)
    case Nil
    with Some show ?thesis
      by (simp add: processFunctionDeclaration_def setKey_def Let_def)
  next
    case (Cons f fs)
    obtain ns rtype where "f = Field ns rtype" by (cases f)
    with assms Some Cons show ?thesis
      by (simp add: processFunctionDeclaration_def setKey_def Let_def)
  qed
qed

lemma processDeclaration_result:
  assumes "Fset pkg = Some fset" and "TypesInfo pkg = Some info" and "md < nextAddr w"
  shows "\<exists>cs w'. processDeclaration env decl pkg code md fp sp ep w = Some (cs, w') \<and>
     reads w' = reads w @ replicate (declReads decl) fp \<and>
     nextAddr w \<le> nextAddr w' \<and> prefix (logs w) (logs w')"
proof (cases decl)
  case (FuncDecl p e recv name t body)
  from processFunctionDeclaration_result [OF assms(2), of env p e recv name t body code md fp sp ep w]
  obtain c w' where R: "processFunctionDeclaration env (FuncDecl p e recv name t body) pkg code md
            fp sp ep w = Some (Some c, w') \<and>
          Metadata c = md \<and> nextAddr w' = nextAddr w \<and> reads w' = reads w \<and> logs w' = logs w \<and>
          (\<forall>a. a \<noteq> md \<longrightarrow> heap w' a = heap w a)"
    by (elim exE)
  then show ?thesis
    by (simp add: FuncDecl processDeclaration_def)
next
  case (GenDecl p e tok specs)
  show ?thesis
  proof (cases "tok = token_IMPORT")
    case True
    then show ?thesis
      by (simp add: GenDecl processDeclaration_def processGeneralDeclaration_def)
  next
    case False
    from processSpecs_result [OF assms, of env specs fp "[]"]
    obtain cs w' where R: "processSpecs env specs pkg md fp [] w = Some ([] @ cs, w') \<and>
       specsResult env pkg fset fp specs md w cs w'"
      by (elim exE)
    then have "reads w' = reads w @ replicate (length (filter isBinding specs)) fp"
      and "nextAddr w \<le> nextAddr w'" and "prefix (logs w) (logs w')"
      by (simp_all add: specsResult_def)
    with R False show ?thesis
      by (simp add: GenDecl processDeclaration_def processGeneralDeclaration_def)
  qed
next
  case (BadDecl p e)
  then show ?thesis
    by (simp add: processDeclaration_def)
qed

lemma processFileDeclarations_result:
  assumes "Fset pkg = Some fset" and "TypesInfo pkg = Some info"
  shows "\<exists>cs w'. processFileDeclarations env decls pkg fp pn v content chunks w
            = Some (chunks @ cs, w') \<and>
     reads w' = reads w @ replicate (fileReads fset content decls) fp \<and>
     nextAddr w \<le> nextAddr w' \<and> prefix (logs w) (logs w')"
proof (induction decls arbitrary: chunks w)
  case Nil
  show ?case
    by (intro exI [of _ "[]"] exI [of _ w]) simp
next
  case (Cons decl decls)
  let ?sp = "PositionOf fset (DeclPos decl)" and ?ep = "PositionOf fset (DeclEnd decl)"
  define w1 where "w1 = snd (newMap [''file_path'' \<mapsto> Str fp, ''package_name'' \<mapsto> Str pn,
                   ''is_vendored'' \<mapsto> Bool v] w)"
  have w1: "nextAddr w1 = Suc (nextAddr w)" "reads w1 = reads w" "logs w1 = logs w"
    by (simp_all add: w1_def newMap_def)
  show ?case
  proof (cases "invalidOffsets (Offset ?sp) (Offset ?ep) content")
    case True
    define w2 where "w2 = logf (InvalidDeclOffsets fp (Line ?sp) (Offset ?sp) (Offset ?ep)
                                   (int (length content))) w1"
    have step: "processFileDeclarations env (decl # decls) pkg fp pn v content chunks w =
        processFileDeclarations env decls pkg fp pn v content chunks w2"
      using assms(1) True by (simp add: newMap_def Let_def w2_def w1_def)
    have w2: "nextAddr w2 = Suc (nextAddr w)" "reads w2 = reads w" "prefix (logs w) (logs w2)"
      using w1 by (simp_all add: w2_def logf_def)
    from Cons.IH [of chunks w2]
    obtain cs w' where R: "processFileDeclarations env decls pkg fp pn v content chunks w2
            = Some (chunks @ cs, w') \<and>
       reads w' = reads w2 @ replicate (fileReads fset content decls) fp \<and>
       nextAddr w2 \<le> nextAddr w' \<and> prefix (logs w2) (logs w')"
      by (elim exE)
    then have "prefix (logs w) (logs w')"
      using w2(3) prefix_order.trans by blast
    with R w2 True show ?thesis
      unfolding step by (intro exI [of _ cs] exI [of _ w']) simp
  next
    case False
    define code where "code = take (nat (Offset ?ep) - nat (Offset ?sp)) (drop (nat (Offset ?sp)) content)"
    define w2 where "w2 = setKey (nextAddr w) ''accessed_symbols''
        (Strs (ExtractAccessedSymbols (Some (DeclNode decl)) (TypesInfo pkg))) w1"
    have w2: "nextAddr w2 = Suc (nextAddr w)" "reads w2 = reads w" "logs w2 = logs w"
      using w1 by (simp_all add: w2_def setKey_def)
    then have "nextAddr w < nextAddr w2" by simp
    from processDeclaration_result [OF assms this, of env decl code fp ?sp ?ep]
    obtain ds w3 where D: "processDeclaration env decl pkg code (nextAddr w) fp ?sp ?ep w2
          = Some (ds, w3) \<and>
       reads w3 = reads w2 @ replicate (declReads decl) fp \<and>
       nextAddr w2 \<le> nextAddr w3 \<and> prefix (logs w2) (logs w3)"
      by (elim exE)
    have step: "processFileDeclarations env (decl # decls) pkg fp pn v content chunks w =
        processFileDeclarations env decls pkg fp pn v content (chunks @ ds) w3"
      using assms(1) False D
      by (simp add: newMap_def Let_def w2_def w1_def slice_valid code_def)
    from Cons.IH [of "chunks @ ds" w3]
    obtain cs w' where R: "processFileDeclarations env decls pkg fp pn v content (chunks @ ds) w3
            = Some ((chunks @ ds) @ cs, w') \<and>
       reads w' = reads w3 @ replicate (fileReads fset content decls) fp \<and>
       nextAddr w3 \<le> nextAddr w' \<and> prefix (logs w3) (logs w')"
      by (elim exE)
    have "prefix (logs w) (logs w')"
      using D R w2(3) prefix_order.trans by metis
    moreover have "reads w' = reads w @ replicate (fileReads fset content (decl # decls)) fp"
      using D R w2 False by (simp add: replicate_add)
    moreover have "nextAddr w \<le> nextAddr w'"
      using D R w2 by simp
    ultimately show ?thesis
      unfolding step using R by (intro exI [of _ "ds @ cs"] exI [of _ w']) simp
  qed
qed

lemma slice_None_iff: "slice s a b = None \<longleftrightarrow> invalidOffsets a b s"
  by (auto simp: slice_def invalidOffsets_def)

text \<open>
  The same steps with their results in full: the chunks are those of \<open>readChunk\<close>,
  \<open>specsChunks\<close>, \<open>declChunks\<close> and \<open>declsChunks\<close>.
\<close>

lemma readAndSlice_exact:
  "\<exists>w'. readAndSlice env spec pkg md fp sp ep name w =
          Some (readChunk env pkg fp spec sp ep name md (length (reads w)), w') \<and>
        nextAddr w' = nextAddr w \<and> reads w' = reads w @ [fp]"
proof (cases "ReadFile env (length (reads w)) fp")
  case None
  then show ?thesis
    by (simp add: readAndSlice_def readFile_def logf_def readChunk_def)
next
  case (Some content)
  show ?thesis
  proof (cases "invalidOffsets (Offset sp) (Offset ep) content")
    case True
    with Some show ?thesis
      by (simp add: readAndSlice_def readFile_def logf_def Let_def readChunk_def)
  next
    case False
    with Some show ?thesis
      by (simp add: readAndSlice_def readFile_def Let_def slice_valid specDocument_def
          readChunk_def)
  qed
qed

lemma processSpecification_readAndSlice:
  assumes "TypesInfo pkg = Some info" and "isBinding spec"
  shows "\<exists>w3. processSpecification env spec pkg base fp sp ep w =
            readAndSlice env spec pkg (nextAddr w) fp sp ep (entityNameOf spec) w3 \<and>
          nextAddr w3 = Suc (nextAddr w) \<and> reads w3 = reads w"
proof (cases spec)
  case (ImportSpec p e)
  with assms(2) show ?thesis by simp
next
  case (TypeSpec p e name tparams t)
  show ?thesis
    by (intro exI [of _ "setKey (nextAddr w) ''type_category'' (Str (typeCategory t))
      (setKey (nextAddr w) ''entity_name'' (Str (Name name))
         (snd (newMap (Map.empty ++ heap w base) w)))"])
       (simp add: TypeSpec processSpecification_def processTypeSpecification_def newMap_def
        Let_def setKey_def)
next
  case (ValueSpec p e names t vals)
  define w1 where "w1 = setKey (nextAddr w) ''entity_name'' (Str (Join (map Name names) '', ''))
         (snd (newMap (Map.empty ++ heap w base) w))"
  define w2 where "w2 =
     (case t of
        Some ty \<Rightarrow> setKey (nextAddr w) ''type'' (Str (GetTypeString (Fprint env) ty info)) w1
      | None \<Rightarrow>
          (case vals of
             v # vs \<Rightarrow>
               (case TypeOf info v of
                  Some tv \<Rightarrow> setKey (nextAddr w) ''type'' (Str tv) w1
                | None \<Rightarrow> w1)
           | [] \<Rightarrow> w1))"
  have eq: "processSpecification env spec pkg base fp sp ep w =
      readAndSlice env spec pkg (nextAddr w) fp sp ep (entityNameOf spec) w2"
    using assms(1) unfolding w2_def w1_def
    by (simp add: ValueSpec processSpecification_def processValueSpecification_def newMap_def
        Let_def split: option.splits list.splits)
  have w1: "nextAddr w1 = Suc (nextAddr w)" "reads w1 = reads w"
    by (simp_all add: w1_def setKey_def newMap_def)
  have w2: "nextAddr w2 = Suc (nextAddr w)" "reads w2 = reads w"
    using w1 by (auto simp: w2_def setKey_def split: option.splits list.splits)
  from eq w2 show ?thesis
    by (intro exI [of _ w2] conjI)
qed

lemma processSpecification_exact:
  assumes "TypesInfo pkg = Some info"
  shows "\<exists>w'. processSpecification env spec pkg base fp sp ep w =
            Some (if isBinding spec
                  then readChunk env pkg fp spec sp ep (entityNameOf spec) (nextAddr w)
                         (length (reads w))
                  else None, w') \<and>
          nextAddr w' = Suc (nextAddr w) \<and>
          reads w' = reads w @ (if isBinding spec then [fp] else [])"
proof (cases "isBinding spec")
  case True
  from processSpecification_readAndSlice [OF assms True, of env base fp sp ep w]
  obtain w3 where A: "processSpecification env spec pkg base fp sp ep w =
            readAndSlice env spec pkg (nextAddr w) fp sp ep (entityNameOf spec) w3 \<and>
          nextAddr w3 = Suc (nextAddr w) \<and> reads w3 = reads w"
    by (elim exE)
  from readAndSlice_exact [of env spec pkg "nextAddr w" fp sp ep "entityNameOf spec" w3]
  obtain w' where B: "readAndSlice env spec pkg (nextAddr w) fp sp ep (entityNameOf spec) w3 =
          Some (readChunk env pkg fp spec sp ep (entityNameOf spec) (nextAddr w)
                  (length (reads w3)), w') \<and>
        nextAddr w' = nextAddr w3 \<and> reads w' = reads w3 @ [fp]"
    by (elim exE)
  from A B True show ?thesis
    by (intro exI [of _ w']) simp
next
  case False
  then obtain p e where "spec = ImportSpec p e" by (cases spec) simp_all
  then show ?thesis
    by (simp add: processSpecification_def newMap_def)
qed

lemma processSpecs_exact:
  assumes "Fset pkg = Some fset" and "TypesInfo pkg = Some info"
  shows "\<exists>w'. processSpecs env specs pkg base fp chunks w =
            Some (chunks @ specsChunks env pkg fset fp (length (reads w)) (nextAddr w) specs, w') \<and>
          nextAddr w' = nextAddr w + length specs \<and>
          reads w' = reads w @ replicate (length (filter isBinding specs)) fp"
proof (induction specs arbitrary: chunks w)
  case Nil
  show ?case by simp
next
  case (Cons spec specs)
  let ?sp = "PositionOf fset (SpecPos spec)" and ?ep = "PositionOf fset (SpecEnd spec)"
  let ?r = "if isBinding spec
            then readChunk env pkg fp spec ?sp ?ep (entityNameOf spec) (nextAddr w)
                   (length (reads w))
            else None"
  from processSpecification_exact [OF assms(2), of env spec base fp ?sp ?ep w]
  obtain w1 where A: "processSpecification env spec pkg base fp ?sp ?ep w = Some (?r, w1) \<and>
          nextAddr w1 = Suc (nextAddr w) \<and>
          reads w1 = reads w @ (if isBinding spec then [fp] else [])"
    by (elim exE)
  define rc where "rc = (case ?r of None \<Rightarrow> [] | Some c \<Rightarrow> [c])"
  have step: "processSpecs env (spec # specs) pkg base fp chunks w =
      processSpecs env specs pkg base fp (chunks @ rc) w1"
    using assms(1) A by (cases ?r) (simp_all add: rc_def)
  from Cons.IH [of "chunks @ rc" w1]
  obtain w' where B: "processSpecs env specs pkg base fp (chunks @ rc) w1 =
            Some ((chunks @ rc) @ specsChunks env pkg fset fp (length (reads w1)) (nextAddr w1) specs, w') \<and>
          nextAddr w' = nextAddr w1 + length specs \<and>
          reads w' = reads w1 @ replicate (length (filter isBinding specs)) fp"
    by (elim exE)
  have ch: "rc @ specsChunks env pkg fset fp (length (reads w1)) (nextAddr w1) specs =
      specsChunks env pkg fset fp (length (reads w)) (nextAddr w) (spec # specs)"
    using A by (simp add: rc_def)
  have rd: "reads w' = reads w @ replicate (length (filter isBinding (spec # specs))) fp"
    using A B by (simp add: replicate_append_same)
  have nx: "nextAddr w' = nextAddr w + length (spec # specs)"
    using A B by simp
  have "processSpecs env (spec # specs) pkg base fp chunks w =
      Some (chunks @ specsChunks env pkg fset fp (length (reads w)) (nextAddr w) (spec # specs), w')"
    unfolding step using B ch by simp
  with rd nx show ?case
    by (intro exI [of _ w'] conjI)
qed

lemma processFunctionDeclaration_exact:
  assumes "TypesInfo pkg = Some info"
  shows "\<exists>w'. processFunctionDeclaration env (FuncDecl p e recv name t body) pkg code md fp sp ep w
            = Some (Some \<lparr> ID = chunkID fp (Line sp) (Line ep) (Name name),
                            Document = ApplyQualifierReplacements (pick env) code
                              (Some (DeclNode (FuncDecl p e recv name t body))) (TypesInfo pkg),
                            Metadata = md \<rparr>, w') \<and>
          nextAddr w' = nextAddr w \<and> reads w' = reads w"
proof (cases recv)
  case None
  then show ?thesis
    by (simp add: processFunctionDeclaration_def setKey_def Let_def)
next
  case (Some l)
  show ?thesis
  proof (cases l)
    case Nil
    with Some show ?thesis
      by (simp add: processFunctionDeclaration_def setKey_def Let_def)
  next
    case (Cons f fs)
    obtain ns rtype where "f = Field ns rtype" by (cases f)
    with assms Some Cons show ?thesis
      by (simp add: processFunctionDeclaration_def setKey_def Let_def)
  qed
qed

lemma processDeclaration_exact:
  assumes "Fset pkg = Some fset" and "TypesInfo pkg = Some info"
  shows "\<exists>w'. processDeclaration env decl pkg code md fp
                 (PositionOf fset (DeclPos decl)) (PositionOf fset (DeclEnd decl)) w =
            Some (declChunks env pkg fset fp code md (length (reads w)) (nextAddr w) decl, w') \<and>
          nextAddr w' = nextAddr w + declMaps decl \<and>
          reads w' = reads w @ replicate (declReads decl) fp"
proof (cases decl)
  case (FuncDecl p e recv name t body)
  from processFunctionDeclaration_exact [OF assms(2), of env p e recv name t body code md fp
      "PositionOf fset p" "PositionOf fset e" w]
  obtain w' where R: "processFunctionDeclaration env (FuncDecl p e recv name t body) pkg code md fp
            (PositionOf fset p) (PositionOf fset e) w
            = Some (Some \<lparr> ID = chunkID fp (Line (PositionOf fset p)) (Line (PositionOf fset e))
                                   (Name name),
                            Document = ApplyQualifierReplacements (pick env) code
                              (Some (DeclNode (FuncDecl p e recv name t body))) (TypesInfo pkg),
                            Metadata = md \<rparr>, w') \<and>
          nextAddr w' = nextAddr w \<and> reads w' = reads w"
    by (elim exE)
  then show ?thesis
    by (intro exI [of _ w']) (simp add: FuncDecl processDeclaration_def)
next
  case (GenDecl p e tok specs)
  show ?thesis
  proof (cases "tok = token_IMPORT")
    case True
    then show ?thesis
      by (simp add: GenDecl processDeclaration_def processGeneralDeclaration_def)
  next
    case False
    from processSpecs_exact [OF assms, of env specs md fp "[]" w]
    obtain w' where R: "processSpecs env specs pkg md fp [] w =
            Some ([] @ specsChunks env pkg fset fp (length (reads w)) (nextAddr w) specs, w') \<and>
          nextAddr w' = nextAddr w + length specs \<and>
          reads w' = reads w @ replicate (length (filter isBinding specs)) fp"
      by (elim exE)
    with False show ?thesis
      by (intro exI [of _ w'])
         (simp add: GenDecl processDeclaration_def processGeneralDeclaration_def)
  qed
next
  case (BadDecl p e)
  then show ?thesis
    by (simp add: processDeclaration_def)
qed

lemma processFileDeclarations_exact:
  assumes "Fset pkg = Some fset" and "TypesInfo pkg = Some info"
  shows "\<exists>w'. processFileDeclarations env decls pkg fp pn v content chunks w =
            Some (chunks @ declsChunks env pkg fset fp content (length (reads w)) (nextAddr w) decls,
                  w') \<and>
          reads w' = reads w @ replicate (fileReads fset content decls) fp"
proof (induction decls arbitrary: chunks w)
  case Nil
  show ?case by simp
next
  case (Cons decl decls)
  let ?sp = "PositionOf fset (DeclPos decl)" and ?ep = "PositionOf fset (DeclEnd decl)"
  define w1 where "w1 = snd (newMap [''file_path'' \<mapsto> Str fp, ''package_name'' \<mapsto> Str pn,
                   ''is_vendored'' \<mapsto> Bool v] w)"
  have w1: "nextAddr w1 = Suc (nextAddr w)" "reads w1 = reads w"
    by (simp_all add: w1_def newMap_def)
  show ?case
  proof (cases "invalidOffsets (Offset ?sp) (Offset ?ep) content")
    case True
    define w2 where "w2 = logf (InvalidDeclOffsets fp (Line ?sp) (Offset ?sp) (Offset ?ep)
                                   (int (length content))) w1"
    have step: "processFileDeclarations env (decl # decls) pkg fp pn v content chunks w =
        processFileDeclarations env decls pkg fp pn v content chunks w2"
      using assms(1) True by (simp add: newMap_def Let_def w2_def w1_def)
    have w2: "nextAddr w2 = Suc (nextAddr w)" "reads w2 = reads w"
      using w1 by (simp_all add: w2_def logf_def)
    from Cons.IH [of chunks w2]
    obtain w' where R: "processFileDeclarations env decls pkg fp pn v content chunks w2 =
            Some (chunks @ declsChunks env pkg fset fp content (length (reads w2)) (nextAddr w2) decls,
                  w') \<and>
          reads w' = reads w2 @ replicate (fileReads fset content decls) fp"
      by (elim exE)
    with w2 True show ?thesis
      unfolding step by (intro exI [of _ w']) (simp add: Let_def)
  next
    case False
    define code where "code = take (nat (Offset ?ep) - nat (Offset ?sp)) (drop (nat (Offset ?sp)) content)"
    define w2 where "w2 = setKey (nextAddr w) ''accessed_symbols''
        (Strs (ExtractAccessedSymbols (Some (DeclNode decl)) (TypesInfo pkg))) w1"
    have w2: "nextAddr w2 = Suc (nextAddr w)" "reads w2 = reads w"
      using w1 by (simp_all add: w2_def setKey_def)
    from processDeclaration_exact [OF assms, of env decl code "nextAddr w" fp w2]
    obtain w3 where D: "processDeclaration env decl pkg code (nextAddr w) fp ?sp ?ep w2 =
            Some (declChunks env pkg fset fp code (nextAddr w) (length (reads w2)) (nextAddr w2) decl, w3) \<and>
          nextAddr w3 = nextAddr w2 + declMaps decl \<and>
          reads w3 = reads w2 @ replicate (declReads decl) fp"
      by (elim exE)
    let ?ds = "declChunks env pkg fset fp code (nextAddr w) (length (reads w)) (Suc (nextAddr w)) decl"
    have step: "processFileDeclarations env (decl # decls) pkg fp pn v content chunks w =
        processFileDeclarations env decls pkg fp pn v content (chunks @ ?ds) w3"
      using assms(1) False D w2
      by (simp add: newMap_def Let_def w2_def w1_def slice_valid code_def)
    from Cons.IH [of "chunks @ ?ds" w3]
    obtain w' where R: "processFileDeclarations env decls pkg fp pn v content (chunks @ ?ds) w3 =
            Some ((chunks @ ?ds) @ declsChunks env pkg fset fp content (length (reads w3)) (nextAddr w3) decls,
                  w') \<and>
          reads w' = reads w3 @ replicate (fileReads fset content decls) fp"
      by (elim exE)
    have l: "length (reads w3) = length (reads w) + declReads decl"
      "nextAddr w3 = Suc (nextAddr w) + declMaps decl"
      using D w2 by simp_all
    have rd: "reads w' = reads w @ replicate (fileReads fset content (decl # decls)) fp"
      using D R w2 False by (simp add: replicate_add)
    have ch: "?ds @ declsChunks env pkg fset fp content (length (reads w3)) (nextAddr w3) decls =
        declsChunks env pkg fset fp content (length (reads w)) (nextAddr w) (decl # decls)"
      using False by (simp add: Let_def code_def l)
    have "processFileDeclarations env (decl # decls) pkg fp pn v content chunks w =
        Some (chunks @ declsChunks env pkg fset fp content (length (reads w)) (nextAddr w)
                (decl # decls), w')"
      unfolding step using R ch by simp
    with rd show ?thesis
      by (intro exI [of _ w'] conjI)
  qed
qed

lemma processFiles_exact:
  assumes "Fset pkg = Some fset" and "TypesInfo pkg = Some info"
    and "FileNameOf fset (FilePos fl) = Some fp"
    and "ReadFile env (length (reads w)) fp = Some content"
  shows "\<exists>w2. processFiles env (fl # files) pkg absVendorPath chunks w =
           processFiles env files pkg absVendorPath
             (chunks @ declsChunks env pkg fset fp content (Suc (length (reads w))) (nextAddr w)
                         (Decls fl)) w2 \<and>
         reads w2 = reads w @ replicate (Suc (fileReads fset content (Decls fl))) fp"
proof -
  define w1 where "w1 = w\<lparr>reads := reads w @ [fp]\<rparr>"
  from processFileDeclarations_exact [OF assms(1,2), of env "Decls fl" fp
      "pName pkg" "HasPrefix fp (absVendorPath @ [Separator env])" content "[]" w1]
  obtain w2 where R: "processFileDeclarations env (Decls fl) pkg fp (pName pkg)
         (HasPrefix fp (absVendorPath @ [Separator env])) content [] w1 =
            Some ([] @ declsChunks env pkg fset fp content (length (reads w1)) (nextAddr w1)
                         (Decls fl), w2) \<and>
     reads w2 = reads w1 @ replicate (fileReads fset content (Decls fl)) fp"
    by (elim exE)
  have "processFiles env (fl # files) pkg absVendorPath chunks w =
           processFiles env files pkg absVendorPath
             (chunks @ declsChunks env pkg fset fp content (Suc (length (reads w))) (nextAddr w)
                         (Decls fl)) w2"
    using assms(1,3,4) R by (simp add: readFile_def Let_def w1_def)
  moreover have "reads w2 = reads w @ replicate (Suc (fileReads fset content (Decls fl))) fp"
    using R by (simp add: w1_def)
  ultimately show ?thesis
    by (intro exI [of _ w2] conjI)
qed

lemma ex_less_Suc:
  "(\<exists>i < Suc n. P i) \<longleftrightarrow> P 0 \<or> (\<exists>i < n. P (Suc i))"
  by (auto simp: less_Suc_eq_0_disj)

lemma specsChunks_nth:
  "c \<in> set (specsChunks env pkg fset fp n a specs) \<longleftrightarrow>
     (\<exists>i < length specs. isBinding (specs ! i) \<and>
        readChunk env pkg fp (specs ! i) (PositionOf fset (SpecPos (specs ! i)))
          (PositionOf fset (SpecEnd (specs ! i))) (entityNameOf (specs ! i)) (a + i)
          (n + length (filter isBinding (take i specs))) = Some c)"
proof (induction specs arbitrary: n a)
  case Nil
  show ?case by simp
next
  case (Cons spec specs)
  show ?case
  proof (cases "isBinding spec")
    case True
    then show ?thesis
      by (simp add: Cons.IH ex_less_Suc split: option.splits) auto
  next
    case False
    then show ?thesis
      by (simp add: Cons.IH ex_less_Suc)
  qed
qed

section \<open>The qualifier rewrite\<close>
































lemma fold_discover_Nil:
  "fold (\<lambda>(x, sel) replacements.
        case x of
          IdentExpr ident \<Rightarrow>
            (case importedPath info x of
               Some fullImportPath \<Rightarrow>
                 if Name ident \<noteq> fullImportPath
                 then AList.update (Name ident) fullImportPath replacements
                 else replacements
             | None \<Rightarrow> replacements)
        | _ \<Rightarrow> replacements) xs acc = []
   \<longleftrightarrow> acc = [] \<and> (\<forall>(x, sel) \<in> set xs. \<not> discovers info x)"
proof (induction xs arbitrary: acc)
  case Nil
  then show ?case by simp
next
  case (Cons p xs)
  obtain x sel where p: "p = (x, sel)" by (cases p)
  show ?case
    unfolding p by (cases x) (auto simp: Cons.IH discovers_def split: option.splits)
qed

lemma discoverReplacements_Nil:
  "discoverReplacements n i = [] \<longleftrightarrow> (\<forall>(x, sel) \<in> set (Inspect n). \<not> discovers i x)"
  unfolding discoverReplacements_def by (simp add: fold_discover_Nil)

text \<open>
  C3. When the node or the table is nil, or the walk assigns nothing to
  \<open>replacements\<close>, \<open>ApplyQualifierReplacements\<close> returns the text it was given. The
  walk assigns nothing exactly when every selector whose base identifier is bound
  to a package name has a base that is spelled like the import path.
\<close>

theorem no_aliases_no_rewrite:
  "(node = None \<or> info = None \<or>
      (\<exists>n i. node = Some n \<and> info = Some i \<and> discoverReplacements n i = []) \<longrightarrow>
        ApplyQualifierReplacements pk chunkCode node info = chunkCode)
   \<and> (discoverReplacements n i = [] \<longleftrightarrow>
        (\<forall>(x, sel) \<in> set (Inspect n). \<forall>ident path.
            x = IdentExpr ident \<and> importedPath i x = Some path \<longrightarrow> Name ident = path))"
proof
  show "node = None \<or> info = None \<or>
      (\<exists>n i. node = Some n \<and> info = Some i \<and> discoverReplacements n i = []) \<longrightarrow>
        ApplyQualifierReplacements pk chunkCode node info = chunkCode"
    by (auto simp: ApplyQualifierReplacements_def split: option.splits)
  show "discoverReplacements n i = [] \<longleftrightarrow>
        (\<forall>(x, sel) \<in> set (Inspect n). \<forall>ident path.
            x = IdentExpr ident \<and> importedPath i x = Some path \<longrightarrow> Name ident = path)"
    unfolding discoverReplacements_Nil discovers_def by blast
qed

theorem no_aliases_no_rewrite_witness:
  "discoverReplacements (DeclNode exPlain) exNames = []
   \<and> ApplyQualifierReplacements inOrder ''func Plain() { fmt.Println(1) }''
        (Some (DeclNode exPlain)) (Some exNames) = ''func Plain() { fmt.Println(1) }''
   \<and> ApplyQualifierReplacements inOrder ''fm.X'' None (Some exNames) = ''fm.X''"
proof -
  have all: "\<forall>(x, sel) \<in> set (Inspect (DeclNode exPlain)). \<forall>ident path.
            x = IdentExpr ident \<and> importedPath exNames x = Some path \<longrightarrow> Name ident = path"
    by (simp add: exPlain_def exNames_def importedPath_def)
  note t = no_aliases_no_rewrite [where n = "DeclNode exPlain" and i = exNames and pk = inOrder]
  from t [where node = "Some (DeclNode exPlain)" and info = "Some exNames"
          and chunkCode = "''func Plain() { fmt.Println(1) }''"] all
  have "discoverReplacements (DeclNode exPlain) exNames = []"
    and "ApplyQualifierReplacements inOrder ''func Plain() { fmt.Println(1) }''
        (Some (DeclNode exPlain)) (Some exNames) = ''func Plain() { fmt.Println(1) }''"
    by blast+
  moreover from t [where node = None and info = "Some exNames" and chunkCode = "''fm.X''"]
  have "ApplyQualifierReplacements inOrder ''fm.X'' None (Some exNames) = ''fm.X''"
    by blast
  ultimately show ?thesis by simp
qed

section \<open>Accessed symbols\<close>

text \<open>
  C7. \<open>ExtractAccessedSymbols\<close> returns a sorted list without duplicates. For a
  node and a table it holds exactly the strings \<open><import path>.<member>\<close> of the
  selectors of the subtree whose base identifier is bound to a package name, and
  it is the sorted list of the keys of the map in whatever order \<open>range\<close> yields
  them. For a nil node or a nil table the result is empty. The function has no
  error result.
\<close>

theorem accessed_symbols_sorted_unique:
  "sorted (ExtractAccessedSymbols node info) \<and> distinct (ExtractAccessedSymbols node info)
   \<and> (node = Some n \<and> info = Some i \<longrightarrow>
        set (ExtractAccessedSymbols node info) =
          {path @ ''.'' @ Name sel | x sel path.
             (x, sel) \<in> set (Inspect n) \<and> importedPath i x = Some path}
        \<and> (\<forall>ks. distinct ks \<and> set ks = set (accessedKeys n i) \<longrightarrow>
               sort ks = ExtractAccessedSymbols node info))
   \<and> (node = None \<or> info = None \<longrightarrow> ExtractAccessedSymbols node info = [])"
proof (intro conjI impI)
  show "sorted (ExtractAccessedSymbols node info)"
    by (simp add: ExtractAccessedSymbols_def split: option.splits)
  show "distinct (ExtractAccessedSymbols node info)"
    by (simp add: ExtractAccessedSymbols_def accessedKeys_def split: option.splits)
next
  assume h: "node = Some n \<and> info = Some i"
  then have r: "ExtractAccessedSymbols node info = sort (accessedKeys n i)"
    by (simp add: ExtractAccessedSymbols_def)
  show "set (ExtractAccessedSymbols node info) =
          {path @ ''.'' @ Name sel | x sel path.
             (x, sel) \<in> set (Inspect n) \<and> importedPath i x = Some path}"
    unfolding r by (auto simp: accessedKeys_def split: option.splits) force
  show "\<forall>ks. distinct ks \<and> set ks = set (accessedKeys n i) \<longrightarrow>
               sort ks = ExtractAccessedSymbols node info"
  proof (intro allI impI)
    fix ks :: "string list"
    assume k: "distinct ks \<and> set ks = set (accessedKeys n i)"
    have "distinct (accessedKeys n i)" by (simp add: accessedKeys_def)
    with k show "sort ks = ExtractAccessedSymbols node info"
      unfolding r by (intro sorted_distinct_set_unique) simp_all
  qed
next
  assume "node = None \<or> info = None"
  then show "ExtractAccessedSymbols node info = []"
    by (auto simp: ExtractAccessedSymbols_def split: option.splits)
qed


theorem accessed_symbols_sorted_unique_witness:
  "ExtractAccessedSymbols (Some (DeclNode exMany)) (Some exNames) = [''fmt.Println'', ''os.Exit'']
   \<and> sort [''fmt.Println'', ''os.Exit''] = ExtractAccessedSymbols (Some (DeclNode exMany)) (Some exNames)
   \<and> ExtractAccessedSymbols None (Some exNames) = []"
proof -
  have k: "accessedKeys (DeclNode exMany) exNames = [''os.Exit'', ''fmt.Println'']"
    by (simp add: accessedKeys_def exMany_def exNames_def importedPath_def)
  have d: "distinct [''fmt.Println'', ''os.Exit''] \<and>
           set [''fmt.Println'', ''os.Exit''] = set (accessedKeys (DeclNode exMany) exNames)"
    unfolding k by auto
  have o: "[''fmt.Println'', ''os.Exit''] = sort [''fmt.Println'', ''os.Exit'']"
    by (simp add: less_eq_char_def)
  note t = accessed_symbols_sorted_unique [where n = "DeclNode exMany" and i = exNames]
  from t [where node = "Some (DeclNode exMany)" and info = "Some exNames"] d
  have "sort [''fmt.Println'', ''os.Exit''] = ExtractAccessedSymbols (Some (DeclNode exMany)) (Some exNames)"
    by blast
  moreover from t [where node = None and info = "Some exNames"]
  have "ExtractAccessedSymbols None (Some exNames) = []"
    by blast
  ultimately show ?thesis using o by simp
qed

section \<open>Chunk identifiers\<close>

text \<open>
  C1. The claim: the identifier of every chunk is
  \<open><file_path>:<start_line>-<end_line>-<entity_name>\<close> with the entity name of its
  metadata, which for a method is \<open><receiver-type-text>.<function-name>\<close>.
  On the example project the two type bindings follow the rule, and the method
  \<open>Hello\<close> with receiver \<open>*Foo\<close> does not: its metadata holds the entity name
  \<open>*Foo.Hello\<close>, its identifier ends in the bare function name \<open>Hello\<close>.
\<close>

theorem method_chunk_id_has_bare_name:
  "map ID (chunksOf (ParsePackages exEnv [exPkg] ''/p'' emptyWorld)) =
     [''/p/demo.go:6-6-Foo'', ''/p/demo.go:7-7-Bar'', ''/p/demo.go:10-10-Hello'']
   \<and> metadataOf (ParsePackages exEnv [exPkg] ''/p'' emptyWorld) ''entity_name'' =
     [Some (Str ''Foo''), Some (Str ''Bar''), Some (Str ''*Foo.Hello'')]
   \<and> chunkID ''/p/demo.go'' 10 10 ''*Foo.Hello'' = ''/p/demo.go:10-10-*Foo.Hello''"
  by (simp add: chunksOf_def metadataOf_def ex_defs lib_defs analyzer_defs transform_defs
      parser_defs Let_def)

section \<open>Functions and methods\<close>

text \<open>
  C6. A function declaration with a receiver (a receiver list with at least one
  field, as the source tests it) gives a chunk whose metadata has entity type
  \<open>method\<close>, the receiver type as \<open>GetTypeString\<close> renders the type of the first
  receiver field, and the entity name \<open><receiver type>.<function name>\<close>. Without a
  receiver the entity type is \<open>function\<close>, the entity name is the function name and
  no receiver type is written. In the structural fallback a pointer receiver is
  rendered with its star (\<open>*Foo.Bar\<close>).
\<close>

theorem method_entity_naming:
  "(recv = Some (Field ns rtype # fs) \<and> TypesInfo pkg = Some info \<longrightarrow>
      (\<exists>chunk w'.
         processFunctionDeclaration env (FuncDecl p e recv name ftype body) pkg code md filePath
           sp ep w = Some (Some chunk, w') \<and>
         Metadata chunk = md \<and>
         heap w' md ''entity_type'' = Some (Str ''method'') \<and>
         heap w' md ''receiver_type'' = Some (Str (GetTypeString (Fprint env) rtype info)) \<and>
         heap w' md ''entity_name'' =
           Some (Str (GetTypeString (Fprint env) rtype info @ ''.'' @ Name name))))
   \<and> (recv = None \<or> recv = Some [] \<longrightarrow>
      (\<exists>chunk w'.
         processFunctionDeclaration env (FuncDecl p e recv name ftype body) pkg code md filePath
           sp ep w = Some (Some chunk, w') \<and>
         Metadata chunk = md \<and>
         heap w' md ''entity_type'' = Some (Str ''function'') \<and>
         heap w' md ''entity_name'' = Some (Str (Name name)) \<and>
         heap w' md ''receiver_type'' = heap w md ''receiver_type''))
   \<and> (TypeOf info (StarExpr x) = None \<longrightarrow>
        GetTypeString (Fprint env) (StarExpr x) info = ''*'' @ GetTypeString (Fprint env) x info)"
  by (auto simp: processFunctionDeclaration_def setKey_def Let_def)

theorem method_entity_naming_witness:
  "heap (snd (the (processFunctionDeclaration exEnv exHello exPkg ''func'' 0 ''/p/demo.go''
       (PositionOf exFset 65) (PositionOf exFset 104) emptyWorld))) 0 ''entity_name'' = Some (Str ''*Foo.Hello'')
   \<and> heap (snd (the (processFunctionDeclaration exEnv
        (FuncDecl 1 9 None (Ident 6 ''F'') (FuncType None (Some []) None) None) exPkg ''func'' 0
        ''/p/demo.go'' (PositionOf exFset 1) (PositionOf exFset 9) emptyWorld))) 0 ''entity_name'' = Some (Str ''F'')"
proof -
  have m: "Some [Field [Ident 71 ''f''] (StarExpr (IdentExpr (Ident 74 ''Foo'')))]
             = Some (Field [Ident 71 ''f''] (StarExpr (IdentExpr (Ident 74 ''Foo''))) # [])
           \<and> TypesInfo exPkg = Some exInfo"
    by (simp add: exPkg_def)
  have f: "(None :: Field list option) = None \<or> (None :: Field list option) = Some []"
    by simp
  have t: "TypeOf exInfo (StarExpr (IdentExpr (Ident 74 ''Foo''))) = None"
    by (simp add: exInfo_def)
  note a = method_entity_naming [where env = exEnv and pkg = exPkg and info = exInfo
      and recv = "Some [Field [Ident 71 ''f''] (StarExpr (IdentExpr (Ident 74 ''Foo'')))]"
      and ns = "[Ident 71 ''f'']" and rtype = "StarExpr (IdentExpr (Ident 74 ''Foo''))"
      and fs = "[]" and name = "Ident 79 ''Hello''" and p = 65 and e = 104
      and ftype = "FuncType None (Some []) None"
      and body = "Some (OtherNode 87 [OtherNode 89 [OtherNode 89
          [SelectorExpr (IdentExpr (Ident 89 ''fm'')) (Ident 92 ''Println''),
           OtherNode 100 []]]])"
      and code = "''func''" and md = 0 and filePath = "''/p/demo.go''"
      and sp = "PositionOf exFset 65" and ep = "PositionOf exFset 104" and w = emptyWorld
      and x = "IdentExpr (Ident 74 ''Foo'')"]
  note b = method_entity_naming [where env = exEnv and pkg = exPkg and info = exInfo
      and recv = None and name = "Ident 6 ''F''" and p = 1 and e = 9
      and ftype = "FuncType None (Some []) None" and body = None
      and code = "''func''" and md = 0 and filePath = "''/p/demo.go''"
      and sp = "PositionOf exFset 1" and ep = "PositionOf exFset 9" and w = emptyWorld]
  from a m t have "heap (snd (the (processFunctionDeclaration exEnv exHello exPkg ''func'' 0
       ''/p/demo.go'' (PositionOf exFset 65) (PositionOf exFset 104) emptyWorld))) 0 ''entity_name'' =
       Some (Str ''*Foo.Hello'')"
    by (auto simp: exHello_def exInfo_def exEnv_def)
  moreover from b f have "heap (snd (the (processFunctionDeclaration exEnv
        (FuncDecl 1 9 None (Ident 6 ''F'') (FuncType None (Some []) None) None) exPkg ''func'' 0
        ''/p/demo.go'' (PositionOf exFset 1) (PositionOf exFset 9) emptyWorld))) 0 ''entity_name'' = Some (Str ''F'')"
    by auto
  ultimately show ?thesis by simp
qed

section \<open>The structural fallback of the type text\<close>

text \<open>
  C10. When the type-resolution table has no type for an interface type literal,
  \<open>GetTypeString\<close> renders it as \<open>interface{}\<close>, whatever methods it declares.
\<close>

theorem interface_fallback_discards_methods:
  "TypeOf info (InterfaceType methods) = None \<Longrightarrow>
   GetTypeString fprint (InterfaceType methods) info = ''interface{}''"
  by simp

theorem interface_fallback_discards_methods_witness:
  "TypeOf exInfo (InterfaceType [Field [Ident 3 ''Read''] (FuncType None (Some []) None)]) = None
   \<and> GetTypeString (\<lambda>e. ''?'')
        (InterfaceType [Field [Ident 3 ''Read''] (FuncType None (Some []) None)]) exInfo
      = ''interface{}''"
proof -
  have h: "TypeOf exInfo (InterfaceType [Field [Ident 3 ''Read''] (FuncType None (Some []) None)])
           = None"
    by (simp add: exInfo_def)
  show ?thesis
    using h interface_fallback_discards_methods [OF h, of "\<lambda>e. ''?''"] by simp
qed

section \<open>Spans\<close>

text \<open>
  C8. The check of \<open>processFileDeclarations\<close> rejects a span exactly when
  \<open>0 \<le> start \<le> end \<le> len\<close> fails, which is exactly when the slice expression
  would panic. A declaration with a rejected span is logged and skipped, and the
  loop goes on with the remaining declarations; a spec with a rejected span is
  logged and gives no chunk. With the position index and the
  type table present the loop over the declarations of a file always returns (no
  slice is out of range).
\<close>

theorem invalid_span_skipped:
  "(invalidOffsets a b s \<longleftrightarrow> \<not> (0 \<le> a \<and> a \<le> b \<and> b \<le> int (length s)))
   \<and> (slice s a b = None \<longleftrightarrow> invalidOffsets a b s)
   \<and> (Fset pkg = Some fset \<and>
        invalidOffsets (Offset (PositionOf fset (DeclPos decl))) (Offset (PositionOf fset (DeclEnd decl))) content \<longrightarrow>
        processFileDeclarations env (decl # decls) pkg fp pn v content chunks w =
        processFileDeclarations env decls pkg fp pn v content chunks
          (logf (InvalidDeclOffsets fp (Line (PositionOf fset (DeclPos decl))) (Offset (PositionOf fset (DeclPos decl)))
                   (Offset (PositionOf fset (DeclEnd decl))) (int (length content)))
             (snd (newMap [''file_path'' \<mapsto> Str fp, ''package_name'' \<mapsto> Str pn,
                           ''is_vendored'' \<mapsto> Bool v] w))))
   \<and> (Fset pkg = Some fset \<and> TypesInfo pkg = Some info \<longrightarrow>
        (\<exists>cs w'. processFileDeclarations env decls pkg fp pn v content chunks w
                   = Some (chunks @ cs, w')))
   \<and> (ReadFile env (length (reads w)) fp = Some content \<and>
        invalidOffsets (Offset sp) (Offset ep) content \<longrightarrow>
        readAndSlice env spec pkg md fp sp ep name w =
        Some (None, logf (InvalidSpecOffsets fp (Line sp) (Offset sp) (Offset ep)
                            (int (length content)))
                      (w\<lparr>reads := reads w @ [fp]\<rparr>)))"
proof (intro conjI impI)
  show "invalidOffsets a b s \<longleftrightarrow> \<not> (0 \<le> a \<and> a \<le> b \<and> b \<le> int (length s))"
    by (auto simp: invalidOffsets_def)
  show "slice s a b = None \<longleftrightarrow> invalidOffsets a b s"
    by (rule slice_None_iff)
next
  assume "Fset pkg = Some fset \<and>
        invalidOffsets (Offset (PositionOf fset (DeclPos decl))) (Offset (PositionOf fset (DeclEnd decl))) content"
  then show "processFileDeclarations env (decl # decls) pkg fp pn v content chunks w =
        processFileDeclarations env decls pkg fp pn v content chunks
          (logf (InvalidDeclOffsets fp (Line (PositionOf fset (DeclPos decl))) (Offset (PositionOf fset (DeclPos decl)))
                   (Offset (PositionOf fset (DeclEnd decl))) (int (length content)))
             (snd (newMap [''file_path'' \<mapsto> Str fp, ''package_name'' \<mapsto> Str pn,
                           ''is_vendored'' \<mapsto> Bool v] w)))"
    by (simp add: newMap_def Let_def)
next
  assume "Fset pkg = Some fset \<and> TypesInfo pkg = Some info"
  then have f: "Fset pkg = Some fset" and t: "TypesInfo pkg = Some info" by simp_all
  from processFileDeclarations_result [OF f t, of env decls fp pn v content chunks w]
  show "\<exists>cs w'. processFileDeclarations env decls pkg fp pn v content chunks w
                   = Some (chunks @ cs, w')"
    by blast
next
  assume "ReadFile env (length (reads w)) fp = Some content \<and>
        invalidOffsets (Offset sp) (Offset ep) content"
  then show "readAndSlice env spec pkg md fp sp ep name w =
        Some (None, logf (InvalidSpecOffsets fp (Line sp) (Offset sp) (Offset ep)
                            (int (length content)))
                      (w\<lparr>reads := reads w @ [fp]\<rparr>))"
    by (simp add: readAndSlice_def readFile_def Let_def)
qed

theorem invalid_span_skipped_witness:
  "(Fset exPkg = Some exFset \<and>
      invalidOffsets (Offset (PositionOf exFset (DeclPos exBeyond))) (Offset (PositionOf exFset (DeclEnd exBeyond)))
        exContent)
   \<and> processFileDeclarations exEnv [exBeyond, exHello] exPkg ''/p/demo.go'' ''demo'' False
        exContent [] emptyWorld =
      processFileDeclarations exEnv [exHello] exPkg ''/p/demo.go'' ''demo'' False exContent []
        (logf (InvalidDeclOffsets ''/p/demo.go'' (Line (PositionOf exFset (DeclPos exBeyond)))
                 (Offset (PositionOf exFset (DeclPos exBeyond))) (Offset (PositionOf exFset (DeclEnd exBeyond)))
                 (int (length exContent)))
           (snd (newMap [''file_path'' \<mapsto> Str ''/p/demo.go'', ''package_name'' \<mapsto> Str ''demo'',
                         ''is_vendored'' \<mapsto> Bool False] emptyWorld)))
   \<and> (Fset exPkg = Some exFset \<and> TypesInfo exPkg = Some exInfo)
   \<and> (\<exists>cs w'. processFileDeclarations exEnv [exBeyond, exHello] exPkg ''/p/demo.go'' ''demo''
                  False exContent [] emptyWorld = Some ([] @ cs, w'))
   \<and> (ReadFile exEnv (length (reads emptyWorld)) ''/p/demo.go'' = Some exContent \<and>
        invalidOffsets (Offset (PositionOf exFset 90)) (Offset (PositionOf exFset 200)) exContent)
   \<and> readAndSlice exEnv exFoo exPkg 0 ''/p/demo.go'' (PositionOf exFset 90) (PositionOf exFset 200) ''Foo'' emptyWorld =
        Some (None, logf (InvalidSpecOffsets ''/p/demo.go'' (Line (PositionOf exFset 90)) (Offset (PositionOf exFset 90))
                            (Offset (PositionOf exFset 200)) (int (length exContent)))
                      (emptyWorld\<lparr>reads := reads emptyWorld @ [''/p/demo.go'']\<rparr>))
   \<and> logsOf (ParsePackages exEnv
        [exPkg \<lparr> Syntax := Some [\<lparr> FilePos = 1, Decls = [exBeyond, exHello] \<rparr>] \<rparr>]
        ''/p'' emptyWorld) = [InvalidDeclOffsets ''/p/demo.go'' 10 89 199 104]"
proof -
  have h: "Fset exPkg = Some exFset \<and>
      invalidOffsets (Offset (PositionOf exFset (DeclPos exBeyond))) (Offset (PositionOf exFset (DeclEnd exBeyond)))
        exContent"
    by (simp add: exPkg_def exFset_def exBeyond_def invalidOffsets_def exContent_def)
  have t: "Fset exPkg = Some exFset \<and> TypesInfo exPkg = Some exInfo"
    by (simp add: exPkg_def)
  have q: "ReadFile exEnv (length (reads emptyWorld)) ''/p/demo.go'' = Some exContent \<and>
        invalidOffsets (Offset (PositionOf exFset 90)) (Offset (PositionOf exFset 200)) exContent"
    by (simp add: exEnv_def exFset_def invalidOffsets_def exContent_def)
  note T = invalid_span_skipped [where pkg = exPkg and fset = exFset and decl = exBeyond
      and content = exContent and env = exEnv and fp = "''/p/demo.go''"
      and pn = "''demo''" and v = False and chunks = "[]" and w = emptyWorld and info = exInfo
      and sp = "PositionOf exFset 90" and ep = "PositionOf exFset 200" and spec = exFoo and md = 0
      and name = "''Foo''"]
  note spec = T [THEN conjunct2, THEN conjunct2, THEN conjunct2, THEN conjunct2,
      THEN mp, OF q]
  note skip = T [where decls = "[exHello]", THEN conjunct2, THEN conjunct2, THEN conjunct1,
      THEN mp, OF h]
  note total = T [where decls = "[exBeyond, exHello]", THEN conjunct2, THEN conjunct2,
      THEN conjunct2, THEN conjunct1, THEN mp, OF t]
  have run: "logsOf (ParsePackages exEnv
        [exPkg \<lparr> Syntax := Some [\<lparr> FilePos = 1, Decls = [exBeyond, exHello] \<rparr>] \<rparr>]
        ''/p'' emptyWorld) = [InvalidDeclOffsets ''/p/demo.go'' 10 89 199 104]"
    by (simp add: logsOf_def ex_defs lib_defs analyzer_defs transform_defs parser_defs Let_def)
  from h skip t total q spec run show ?thesis by (elim conjE) (intro conjI)
qed

section \<open>Errors\<close>

text \<open>
  C9. A file without package clause stops the run. For an empty file the front-end
  gives a syntax tree whose \<open>Pos()\<close> is \<open>token.NoPos\<close>; no file of the position index
  holds that position, so \<open>pkg.Fset.File(file.Pos())\<close> is nil and the call of \<open>Name\<close>
  in \<open>processPackage\<close> is a nil dereference. \<open>ParsePackages\<close> on the example package
  returns its three chunks; with the empty file as a second file of the package,
  or as the file of a second package, it panics: nothing is logged, no error is
  returned, and the chunks of the first file and of the first package are lost.
\<close>

theorem file_without_package_clause_aborts:
  "map ID (chunksOf (ParsePackages exEnv [exPkg] ''/p'' emptyWorld)) =
     [''/p/demo.go:6-6-Foo'', ''/p/demo.go:7-7-Bar'', ''/p/demo.go:10-10-Hello'']
   \<and> FileNameOf exFset (FilePos exEmptyFile) = None
   \<and> ParsePackages exEnv [exTwoFiles] ''/p'' emptyWorld = None
   \<and> ParsePackages exEnv [exPkg, exEmptyPkg] ''/p'' emptyWorld = None"
  by (simp add: chunksOf_def ex_defs lib_defs analyzer_defs transform_defs parser_defs Let_def)

section \<open>Reading the file\<close>

text \<open>
  C4. The claim that a file is read exactly once fails: on the example project
  the file is read three times, once by \<open>processPackage\<close> and once for each of the
  two type bindings. When the file changes after the first read, the chunks of the
  bindings hold the new bytes and the chunk of the method the old ones.
\<close>

theorem file_read_once_counterexample:
  "readsOf (ParsePackages exEnv [exPkg] ''/p'' emptyWorld) =
     [''/p/demo.go'', ''/p/demo.go'', ''/p/demo.go'']
   \<and> documentsOf (ParsePackages exChanging [exPkg] ''/p'' emptyWorld) =
     [''xxxxxxxxxxxx'', ''xxxxxxx'', ''func (f *Foo) Hello() { fmt.Println(1) }'']"
  by (simp add: readsOf_def documentsOf_def ex_defs lib_defs analyzer_defs transform_defs
      parser_defs Let_def)

text \<open>
  C4, as amended. \<open>processPackage\<close> reads a file once, and the chunks of the file are
  those of \<open>declsChunks\<close> for the content of that read: the chunk of a function or
  method with a valid span is sliced from that content, at the span of the
  declaration, and makes no read. Every type or value spec of a group that is not
  an import and has a valid span makes one further read, so that a file is read
  \<open>1 + n\<close> times, and the chunks of a group are those of \<open>specsChunks\<close>: the chunk of
  the spec at index \<open>i\<close> is \<open>readChunk\<close> at the read that follows the reads of the
  specs before it, that is, it exists when that read succeeds and the span of the
  spec fits the bytes of that read, and it is sliced from those bytes at the span
  of the spec.
\<close>

theorem file_reads_amended:
  "(Fset pkg = Some fset \<and> TypesInfo pkg = Some info \<and>
      FileNameOf fset (FilePos fl) = Some fp \<and>
      ReadFile env (length (reads w)) fp = Some content \<longrightarrow>
      (\<exists>w2. processFiles env (fl # files) pkg absVendorPath chunks w =
               processFiles env files pkg absVendorPath
                 (chunks @ declsChunks env pkg fset fp content (Suc (length (reads w)))
                             (nextAddr w) (Decls fl)) w2 \<and>
         reads w2 = reads w @ replicate (Suc (fileReads fset content (Decls fl))) fp))
   \<and> (Fset pkg = Some fset \<and> TypesInfo pkg = Some info \<and> tok \<noteq> token_IMPORT \<longrightarrow>
      (\<exists>w'. processGeneralDeclaration env (GenDecl p e tok specs) pkg code base fp sp ep w
               = Some (specsChunks env pkg fset fp (length (reads w)) (nextAddr w) specs, w') \<and>
         reads w' = reads w @ replicate (length (filter isBinding specs)) fp))
   \<and> (c \<in> set (specsChunks env pkg fset fp n a specs) \<longleftrightarrow>
        (\<exists>i < length specs. isBinding (specs ! i) \<and>
           readChunk env pkg fp (specs ! i) (PositionOf fset (SpecPos (specs ! i)))
             (PositionOf fset (SpecEnd (specs ! i))) (entityNameOf (specs ! i)) (a + i)
             (n + length (filter isBinding (take i specs))) = Some c))
   \<and> (Fset pkg = Some fset \<and> TypesInfo pkg = Some info \<and>
        \<not> invalidOffsets (Offset (PositionOf fset p)) (Offset (PositionOf fset e)) content \<longrightarrow>
      (\<exists>w'. processFileDeclarations env [FuncDecl p e recv name ftype body] pkg fp pn vend
               content chunks w =
               Some (chunks @
                 [\<lparr> ID = chunkID fp (Line (PositionOf fset p)) (Line (PositionOf fset e))
                            (Name name),
                    Document = ApplyQualifierReplacements (pick env)
                        (take (nat (Offset (PositionOf fset e)) - nat (Offset (PositionOf fset p)))
                           (drop (nat (Offset (PositionOf fset p))) content))
                        (Some (DeclNode (FuncDecl p e recv name ftype body))) (TypesInfo pkg),
                    Metadata = nextAddr w \<rparr>], w') \<and>
         reads w' = reads w))"
proof (intro conjI impI)
  assume "Fset pkg = Some fset \<and> TypesInfo pkg = Some info \<and>
      FileNameOf fset (FilePos fl) = Some fp \<and>
      ReadFile env (length (reads w)) fp = Some content"
  then have f: "Fset pkg = Some fset" and t: "TypesInfo pkg = Some info"
    and n: "FileNameOf fset (FilePos fl) = Some fp"
    and r: "ReadFile env (length (reads w)) fp = Some content" by simp_all
  show "\<exists>w2. processFiles env (fl # files) pkg absVendorPath chunks w =
               processFiles env files pkg absVendorPath
                 (chunks @ declsChunks env pkg fset fp content (Suc (length (reads w)))
                             (nextAddr w) (Decls fl)) w2 \<and>
         reads w2 = reads w @ replicate (Suc (fileReads fset content (Decls fl))) fp"
    by (rule processFiles_exact [OF f t n r])
next
  assume "Fset pkg = Some fset \<and> TypesInfo pkg = Some info \<and> tok \<noteq> token_IMPORT"
  then have f: "Fset pkg = Some fset" and t: "TypesInfo pkg = Some info"
    and k: "tok \<noteq> token_IMPORT" by simp_all
  from processSpecs_exact [OF f t, of env specs base fp "[]" w]
  obtain w' where R: "processSpecs env specs pkg base fp [] w =
            Some ([] @ specsChunks env pkg fset fp (length (reads w)) (nextAddr w) specs, w') \<and>
          nextAddr w' = nextAddr w + length specs \<and>
          reads w' = reads w @ replicate (length (filter isBinding specs)) fp"
    by (elim exE)
  with k show "\<exists>w'. processGeneralDeclaration env (GenDecl p e tok specs) pkg code base fp sp ep w
               = Some (specsChunks env pkg fset fp (length (reads w)) (nextAddr w) specs, w') \<and>
         reads w' = reads w @ replicate (length (filter isBinding specs)) fp"
    by (intro exI [of _ w']) (simp add: processGeneralDeclaration_def)
next
  show "c \<in> set (specsChunks env pkg fset fp n a specs) \<longleftrightarrow>
        (\<exists>i < length specs. isBinding (specs ! i) \<and>
           readChunk env pkg fp (specs ! i) (PositionOf fset (SpecPos (specs ! i)))
             (PositionOf fset (SpecEnd (specs ! i))) (entityNameOf (specs ! i)) (a + i)
             (n + length (filter isBinding (take i specs))) = Some c)"
    by (rule specsChunks_nth)
next
  assume "Fset pkg = Some fset \<and> TypesInfo pkg = Some info \<and>
        \<not> invalidOffsets (Offset (PositionOf fset p)) (Offset (PositionOf fset e)) content"
  then have f: "Fset pkg = Some fset" and t: "TypesInfo pkg = Some info"
    and v: "\<not> invalidOffsets (Offset (PositionOf fset p)) (Offset (PositionOf fset e)) content"
    by simp_all
  from processFileDeclarations_exact [OF f t, of env "[FuncDecl p e recv name ftype body]" fp pn
      vend content chunks w]
  obtain w' where R: "processFileDeclarations env [FuncDecl p e recv name ftype body] pkg fp pn vend
        content chunks w =
            Some (chunks @ declsChunks env pkg fset fp content (length (reads w)) (nextAddr w)
                    [FuncDecl p e recv name ftype body], w') \<and>
          reads w' = reads w @ replicate (fileReads fset content [FuncDecl p e recv name ftype body]) fp"
    by (elim exE)
  with v show "\<exists>w'. processFileDeclarations env [FuncDecl p e recv name ftype body] pkg fp pn vend
               content chunks w =
               Some (chunks @
                 [\<lparr> ID = chunkID fp (Line (PositionOf fset p)) (Line (PositionOf fset e))
                            (Name name),
                    Document = ApplyQualifierReplacements (pick env)
                        (take (nat (Offset (PositionOf fset e)) - nat (Offset (PositionOf fset p)))
                           (drop (nat (Offset (PositionOf fset p))) content))
                        (Some (DeclNode (FuncDecl p e recv name ftype body))) (TypesInfo pkg),
                    Metadata = nextAddr w \<rparr>], w') \<and>
         reads w' = reads w"
    by (intro exI [of _ w']) (simp add: Let_def)
qed

theorem file_reads_amended_witness:
  "(Fset exPkg = Some exFset \<and> TypesInfo exPkg = Some exInfo \<and>
      FileNameOf exFset (FilePos \<lparr> FilePos = 1, Decls = [exImport, exTypes, exHello] \<rparr>)
        = Some ''/p/demo.go'' \<and>
      ReadFile exChanging (length (reads emptyWorld)) ''/p/demo.go'' = Some exContent)
   \<and> (\<exists>w2. processFiles exChanging [\<lparr> FilePos = 1, Decls = [exImport, exTypes, exHello] \<rparr>]
               exPkg ''/p/vendor'' [] emptyWorld =
             processFiles exChanging [] exPkg ''/p/vendor''
               ([] @ declsChunks exChanging exPkg exFset ''/p/demo.go'' exContent
                       (Suc (length (reads emptyWorld))) (nextAddr emptyWorld)
                       (Decls \<lparr> FilePos = 1, Decls = [exImport, exTypes, exHello] \<rparr>)) w2 \<and>
         reads w2 = reads emptyWorld @ replicate (Suc (fileReads exFset exContent
            (Decls \<lparr> FilePos = 1, Decls = [exImport, exTypes, exHello] \<rparr>))) ''/p/demo.go'')
   \<and> fileReads exFset exContent [exImport, exTypes, exHello] = 2
   \<and> map Document (declsChunks exChanging exPkg exFset ''/p/demo.go'' exContent 1 0
                      [exImport, exTypes, exHello]) =
       [''xxxxxxxxxxxx'', ''xxxxxxx'', ''func (f *Foo) Hello() { fmt.Println(1) }'']
   \<and> (Fset exPkg = Some exFset \<and> TypesInfo exPkg = Some exInfo \<and> token_TYPE \<noteq> token_IMPORT)
   \<and> (\<exists>w'. processGeneralDeclaration exChanging (GenDecl 32 63 token_TYPE [exFoo, exBar]) exPkg []
               1 ''/p/demo.go'' (PositionOf exFset 32) (PositionOf exFset 63)
               (emptyWorld \<lparr> nextAddr := 2, reads := [''/p/demo.go''] \<rparr>)
             = Some (specsChunks exChanging exPkg exFset ''/p/demo.go''
                       (length (reads (emptyWorld \<lparr> nextAddr := 2, reads := [''/p/demo.go''] \<rparr>)))
                       (nextAddr (emptyWorld \<lparr> nextAddr := 2, reads := [''/p/demo.go''] \<rparr>))
                       [exFoo, exBar], w') \<and>
         reads w' = reads (emptyWorld \<lparr> nextAddr := 2, reads := [''/p/demo.go''] \<rparr>)
                      @ replicate (length (filter isBinding [exFoo, exBar])) ''/p/demo.go'')
   \<and> (\<exists>i < length [exFoo, exBar]. isBinding ([exFoo, exBar] ! i) \<and>
         readChunk exChanging exPkg ''/p/demo.go'' ([exFoo, exBar] ! i)
           (PositionOf exFset (SpecPos ([exFoo, exBar] ! i)))
           (PositionOf exFset (SpecEnd ([exFoo, exBar] ! i))) (entityNameOf ([exFoo, exBar] ! i))
           (2 + i) (1 + length (filter isBinding (take i [exFoo, exBar])))
         = Some \<lparr> ID = ''/p/demo.go:7-7-Bar'', Document = ''xxxxxxx'', Metadata = 3 \<rparr>)
   \<and> \<lparr> ID = ''/p/demo.go:7-7-Bar'', Document = ''xxxxxxx'', Metadata = 3 \<rparr>
       \<in> set (specsChunks exChanging exPkg exFset ''/p/demo.go'' 1 2 [exFoo, exBar])
   \<and> (Fset exPkg = Some exFset \<and> TypesInfo exPkg = Some exInfo \<and>
        \<not> invalidOffsets (Offset (PositionOf exFset 65)) (Offset (PositionOf exFset 104)) exContent)
   \<and> (\<exists>w'. processFileDeclarations exEnv
               [FuncDecl 65 104 None (Ident 79 ''Hello'') (FuncType None (Some []) None) None]
               exPkg ''/p/demo.go'' ''demo'' False exContent [] emptyWorld
             = Some ([] @
                 [\<lparr> ID = chunkID ''/p/demo.go'' (Line (PositionOf exFset 65))
                            (Line (PositionOf exFset 104)) (Name (Ident 79 ''Hello'')),
                    Document = ApplyQualifierReplacements (pick exEnv)
                      (take (nat (Offset (PositionOf exFset 104)) - nat (Offset (PositionOf exFset 65)))
                         (drop (nat (Offset (PositionOf exFset 65))) exContent))
                      (Some (DeclNode
                         (FuncDecl 65 104 None (Ident 79 ''Hello'') (FuncType None (Some []) None)
                            None)))
                      (TypesInfo exPkg),
                    Metadata = nextAddr emptyWorld \<rparr>], w') \<and>
         reads w' = reads emptyWorld)"
proof -
  let ?demo = "\<lparr> FilePos = 1, Decls = [exImport, exTypes, exHello] \<rparr>"
  let ?w0 = "emptyWorld \<lparr> nextAddr := 2, reads := [''/p/demo.go''] \<rparr>"
  let ?bar = "\<lparr> ID = ''/p/demo.go:7-7-Bar'', Document = ''xxxxxxx'', Metadata = 3 \<rparr>"
  have a: "Fset exPkg = Some exFset \<and> TypesInfo exPkg = Some exInfo \<and>
      FileNameOf exFset (FilePos ?demo) = Some ''/p/demo.go'' \<and>
      ReadFile exChanging (length (reads emptyWorld)) ''/p/demo.go'' = Some exContent"
    by (simp add: exPkg_def exFset_def exChanging_def exEnv_def emptyWorld_def)
  have n: "fileReads exFset exContent [exImport, exTypes, exHello] = 2"
    by (simp add: exFset_def exContent_def exImport_def exTypes_def exHello_def exFoo_def
        exBar_def invalidOffsets_def)
  have d: "map Document (declsChunks exChanging exPkg exFset ''/p/demo.go'' exContent 1 0
                      [exImport, exTypes, exHello]) =
       [''xxxxxxxxxxxx'', ''xxxxxxx'', ''func (f *Foo) Hello() { fmt.Println(1) }'']"
    by (simp add: readChunk_def specDocument_def ex_defs lib_defs analyzer_defs transform_defs
        parser_defs Let_def)
  have b: "Fset exPkg = Some exFset \<and> TypesInfo exPkg = Some exInfo \<and> token_TYPE \<noteq> token_IMPORT"
    by (simp add: exPkg_def)
  have i: "\<exists>i < length [exFoo, exBar]. isBinding ([exFoo, exBar] ! i) \<and>
         readChunk exChanging exPkg ''/p/demo.go'' ([exFoo, exBar] ! i)
           (PositionOf exFset (SpecPos ([exFoo, exBar] ! i)))
           (PositionOf exFset (SpecEnd ([exFoo, exBar] ! i))) (entityNameOf ([exFoo, exBar] ! i))
           (2 + i) (1 + length (filter isBinding (take i [exFoo, exBar])))
         = Some ?bar"
    by (intro exI [of _ 1])
       (simp add: readChunk_def specDocument_def ex_defs lib_defs analyzer_defs transform_defs
        parser_defs Let_def)
  have c: "Fset exPkg = Some exFset \<and> TypesInfo exPkg = Some exInfo \<and>
        \<not> invalidOffsets (Offset (PositionOf exFset 65)) (Offset (PositionOf exFset 104)) exContent"
    by (simp add: exPkg_def exFset_def invalidOffsets_def exContent_def)
  note T = file_reads_amended [where pkg = exPkg and fset = exFset and info = exInfo]
  note one = T [where env = exChanging and w = emptyWorld and fl = ?demo
      and fp = "''/p/demo.go''" and content = exContent and files = "[]"
      and absVendorPath = "''/p/vendor''" and chunks = "[]", THEN conjunct1, THEN mp, OF a]
  note two = T [where env = exChanging and w = ?w0 and base = 1 and tok = token_TYPE
      and specs = "[exFoo, exBar]" and p = 32 and e = 63 and code = "[]"
      and fp = "''/p/demo.go''" and sp = "PositionOf exFset 32" and ep = "PositionOf exFset 63",
      THEN conjunct2, THEN conjunct1, THEN mp, OF b]
  note three = T [where env = exChanging and specs = "[exFoo, exBar]" and fp = "''/p/demo.go''"
      and n = 1 and a = 2 and c = ?bar,
      THEN conjunct2, THEN conjunct2, THEN conjunct1, THEN iffD2, OF i]
  note four = T [where env = exEnv and w = emptyWorld and p = 65 and e = 104 and recv = None
      and name = "Ident 79 ''Hello''" and ftype = "FuncType None (Some []) None" and body = None
      and fp = "''/p/demo.go''" and pn = "''demo''" and vend = False and content = exContent
      and chunks = "[]", THEN conjunct2, THEN conjunct2, THEN conjunct2, THEN mp, OF c]
  from a one n d b two i three c four show ?thesis
    by (elim conjE) (intro conjI)
qed

section \<open>Metadata of the bindings of a group\<close>

text \<open>
  C5. For a type, const or var group whose base metadata mapping is allocated,
  the chunks of the bindings refer to pairwise different mappings, none of them
  the base mapping, which is left as it was. The mapping of a chunk agrees with
  the base mapping on every key other than the per-binding keys (\<open>entity_name\<close>,
  \<open>type\<close>, \<open>type_category\<close>), and it holds the entity name of a spec of the group.
  Writing a key into the mapping of one chunk leaves the mapping of every other
  chunk of the group unchanged.
\<close>

theorem binding_metadata_not_shared:
  "Fset pkg = Some fset \<and> TypesInfo pkg = Some info \<and> base < nextAddr w \<and>
   tok \<noteq> token_IMPORT \<longrightarrow>
   (\<exists>cs w'. processGeneralDeclaration env (GenDecl p e tok specs) pkg code base fp sp ep w
               = Some (cs, w') \<and>
      distinct (map Metadata cs) \<and>
      heap w' base = heap w base \<and>
      (\<forall>c \<in> set cs.
         Metadata c \<noteq> base \<and>
         (\<forall>k. k \<notin> {''entity_name'', ''type'', ''type_category''} \<longrightarrow>
              heap w' (Metadata c) k = heap w base k) \<and>
         (\<exists>spec \<in> set specs.
            heap w' (Metadata c) ''entity_name'' = Some (Str (entityNameOf spec)))) \<and>
      (\<forall>i < length cs. \<forall>j < length cs. i \<noteq> j \<longrightarrow>
         (\<forall>k v. heap (setKey (Metadata (cs ! i)) k v w') (Metadata (cs ! j))
                  = heap w' (Metadata (cs ! j)))))"
proof
  assume "Fset pkg = Some fset \<and> TypesInfo pkg = Some info \<and> base < nextAddr w \<and>
   tok \<noteq> token_IMPORT"
  then have f: "Fset pkg = Some fset" and t: "TypesInfo pkg = Some info"
    and b: "base < nextAddr w" and k: "tok \<noteq> token_IMPORT" by simp_all
  from processSpecs_result [OF f t b, of env specs fp "[]"]
  obtain cs w' where R: "processSpecs env specs pkg base fp [] w = Some ([] @ cs, w') \<and>
       specsResult env pkg fset fp specs base w cs w'"
    by (elim exE)
  then have d: "distinct (map Metadata cs)"
    and fr: "\<forall>a < nextAddr w. heap w' a = heap w a"
    and bc: "\<forall>c \<in> set cs. bindingChunk env pkg fset fp specs base w w' c"
    by (simp_all add: specsResult_def)
  have run: "processGeneralDeclaration env (GenDecl p e tok specs) pkg code base fp sp ep w
               = Some (cs, w')"
    using R k by (simp add: processGeneralDeclaration_def)
  have hb: "heap w' base = heap w base"
    using fr b by simp
  have each: "\<forall>c \<in> set cs.
         Metadata c \<noteq> base \<and>
         (\<forall>k. k \<notin> {''entity_name'', ''type'', ''type_category''} \<longrightarrow>
              heap w' (Metadata c) k = heap w base k) \<and>
         (\<exists>spec \<in> set specs.
            heap w' (Metadata c) ''entity_name'' = Some (Str (entityNameOf spec)))"
  proof
    fix c assume "c \<in> set cs"
    with bc have B: "bindingChunk env pkg fset fp specs base w w' c" by simp
    then have "nextAddr w \<le> Metadata c"
      by (simp add: bindingChunk_def)
    with b have "Metadata c \<noteq> base" by simp
    moreover from B have "\<forall>k. k \<notin> {''entity_name'', ''type'', ''type_category''} \<longrightarrow>
              heap w' (Metadata c) k = heap w base k"
      by (simp add: bindingChunk_def)
    moreover from B have "\<exists>spec \<in> set specs.
            heap w' (Metadata c) ''entity_name'' = Some (Str (entityNameOf spec))"
      unfolding bindingChunk_def by blast
    ultimately show "Metadata c \<noteq> base \<and>
         (\<forall>k. k \<notin> {''entity_name'', ''type'', ''type_category''} \<longrightarrow>
              heap w' (Metadata c) k = heap w base k) \<and>
         (\<exists>spec \<in> set specs.
            heap w' (Metadata c) ''entity_name'' = Some (Str (entityNameOf spec)))"
      by (intro conjI)
  qed
  have frame: "\<forall>i < length cs. \<forall>j < length cs. i \<noteq> j \<longrightarrow>
         (\<forall>k v. heap (setKey (Metadata (cs ! i)) k v w') (Metadata (cs ! j))
                  = heap w' (Metadata (cs ! j)))"
  proof (intro allI impI)
    fix i j k v
    assume ij: "i < length cs" "j < length cs" "i \<noteq> j"
    then have "map Metadata cs ! i \<noteq> map Metadata cs ! j"
      using nth_eq_iff_index_eq [OF d, of i j] by simp
    with ij have "Metadata (cs ! i) \<noteq> Metadata (cs ! j)"
      by simp
    then show "heap (setKey (Metadata (cs ! i)) k v w') (Metadata (cs ! j))
                  = heap w' (Metadata (cs ! j))"
      by (simp add: setKey_def)
  qed
  from run d hb each frame
  show "\<exists>cs w'. processGeneralDeclaration env (GenDecl p e tok specs) pkg code base fp sp ep w
               = Some (cs, w') \<and>
      distinct (map Metadata cs) \<and>
      heap w' base = heap w base \<and>
      (\<forall>c \<in> set cs.
         Metadata c \<noteq> base \<and>
         (\<forall>k. k \<notin> {''entity_name'', ''type'', ''type_category''} \<longrightarrow>
              heap w' (Metadata c) k = heap w base k) \<and>
         (\<exists>spec \<in> set specs.
            heap w' (Metadata c) ''entity_name'' = Some (Str (entityNameOf spec)))) \<and>
      (\<forall>i < length cs. \<forall>j < length cs. i \<noteq> j \<longrightarrow>
         (\<forall>k v. heap (setKey (Metadata (cs ! i)) k v w') (Metadata (cs ! j))
                  = heap w' (Metadata (cs ! j))))"
    by (intro exI [of _ cs] exI [of _ w'] conjI)
qed

theorem binding_metadata_not_shared_witness:
  "(Fset exPkg = Some exFset \<and> TypesInfo exPkg = Some exInfo \<and>
      0 < nextAddr (snd (newMap [''file_path'' \<mapsto> Str ''/p/demo.go''] emptyWorld)) \<and>
      token_TYPE \<noteq> token_IMPORT)
   \<and> (\<exists>cs w'. processGeneralDeclaration exEnv (GenDecl 32 63 token_TYPE [exFoo, exBar]) exPkg []
                  0 ''/p/demo.go'' (PositionOf exFset 32) (PositionOf exFset 63)
                  (snd (newMap [''file_path'' \<mapsto> Str ''/p/demo.go''] emptyWorld)) = Some (cs, w') \<and>
      distinct (map Metadata cs) \<and>
      heap w' 0 = heap (snd (newMap [''file_path'' \<mapsto> Str ''/p/demo.go''] emptyWorld)) 0 \<and>
      (\<forall>c \<in> set cs.
         Metadata c \<noteq> 0 \<and>
         (\<forall>k. k \<notin> {''entity_name'', ''type'', ''type_category''} \<longrightarrow>
              heap w' (Metadata c) k
                = heap (snd (newMap [''file_path'' \<mapsto> Str ''/p/demo.go''] emptyWorld)) 0 k) \<and>
         (\<exists>spec \<in> set [exFoo, exBar].
            heap w' (Metadata c) ''entity_name'' = Some (Str (entityNameOf spec)))) \<and>
      (\<forall>i < length cs. \<forall>j < length cs. i \<noteq> j \<longrightarrow>
         (\<forall>k v. heap (setKey (Metadata (cs ! i)) k v w') (Metadata (cs ! j))
                  = heap w' (Metadata (cs ! j)))))
   \<and> (case processGeneralDeclaration exEnv (GenDecl 32 63 token_TYPE [exFoo, exBar]) exPkg []
               0 ''/p/demo.go'' (PositionOf exFset 32) (PositionOf exFset 63)
               (snd (newMap [''file_path'' \<mapsto> Str ''/p/demo.go''] emptyWorld)) of
         None \<Rightarrow> False
       | Some (cs, w') \<Rightarrow>
           map Metadata cs = [1, 2] \<and>
           map (\<lambda>c. heap w' (Metadata c) ''entity_name'') cs = [Some (Str ''Foo''), Some (Str ''Bar'')] \<and>
           map (\<lambda>c. heap w' (Metadata c) ''type_category'') cs =
             [Some (Str ''struct''), Some (Str ''alias_or_basic'')] \<and>
           map (\<lambda>c. heap w' (Metadata c) ''file_path'') cs =
             [Some (Str ''/p/demo.go''), Some (Str ''/p/demo.go'')] \<and>
           heap w' 0 ''entity_name'' = None)"
proof -
  let ?w0 = "snd (newMap [''file_path'' \<mapsto> Str ''/p/demo.go''] emptyWorld)"
  have h: "Fset exPkg = Some exFset \<and> TypesInfo exPkg = Some exInfo \<and> 0 < nextAddr ?w0 \<and>
      token_TYPE \<noteq> token_IMPORT"
    by (simp add: exPkg_def newMap_def emptyWorld_def)
  note T = binding_metadata_not_shared [where pkg = exPkg and fset = exFset and info = exInfo
      and env = exEnv and w = ?w0 and base = 0 and tok = token_TYPE and specs = "[exFoo, exBar]"
      and p = 32 and e = 63 and code = "[]" and fp = "''/p/demo.go''" and sp = "PositionOf exFset 32"
      and ep = "PositionOf exFset 63", THEN mp, OF h]
  have run: "case processGeneralDeclaration exEnv (GenDecl 32 63 token_TYPE [exFoo, exBar]) exPkg []
               0 ''/p/demo.go'' (PositionOf exFset 32) (PositionOf exFset 63) ?w0 of
         None \<Rightarrow> False
       | Some (cs, w') \<Rightarrow>
           map Metadata cs = [1, 2] \<and>
           map (\<lambda>c. heap w' (Metadata c) ''entity_name'') cs = [Some (Str ''Foo''), Some (Str ''Bar'')] \<and>
           map (\<lambda>c. heap w' (Metadata c) ''type_category'') cs =
             [Some (Str ''struct''), Some (Str ''alias_or_basic'')] \<and>
           map (\<lambda>c. heap w' (Metadata c) ''file_path'') cs =
             [Some (Str ''/p/demo.go''), Some (Str ''/p/demo.go'')] \<and>
           heap w' 0 ''entity_name'' = None"
    by (simp add: ex_defs lib_defs analyzer_defs transform_defs parser_defs Let_def)
  from h T run show ?thesis
    by (elim conjE) (intro conjI)
qed

end
